theory Spec2Isabelle
  imports Main "HOL-Library.AList"
begin

section \<open>Python strings, integers and dictionaries\<close>

text \<open>
  The two modules under study are \<^verbatim>\<open>vimiv/configparser.py\<close> (settings and keybinding files)
  and \<^verbatim>\<open>vimiv/library.py\<close> (the library pane). Both are Python; the embedding below keeps
  Python's behaviour where a property depends on it: exceptions are values of \<open>py_exn\<close>,
  \<open>int(str)\<close> and \<open>str(int)\<close> are written out on ASCII strings, dictionaries are
  association lists in insertion order with unique keys.

  Strings are ASCII: \<^verbatim>\<open>int\<close> reads an optional sign and decimal digits, single underscores
  between digits allowed, with the white space of \<open>is_int_space\<close> around them skipped; digits and spaces beyond
  ASCII, which Python also accepts, are not part of the model, nor is the limit that recent
  interpreters put on the number of digits. Integers are unbounded, as in Python.
\<close>

datatype py_exn =
    KeyError string
  | IndexError
  | ValueError
  | ReadError string
  | InterpolationSyntaxError
  | InterpolationMissingOptionError
  | InterpolationDepthError

type_synonym 'v dict = "(string \<times> 'v) list"

definition dict_set :: "'v dict \<Rightarrow> string \<Rightarrow> 'v \<Rightarrow> 'v dict" where
  \<comment> \<open>\<^verbatim>\<open>d[k] = v\<close>: an existing key keeps its place, a new key goes last.\<close>
  "dict_set d k v = AList.update k v d"

definition is_int_space :: "char \<Rightarrow> bool" where
  \<comment> \<open>The white space that \<^verbatim>\<open>int\<close> skips around the digits of an ASCII string: tab, line
      feed, vertical tab, form feed, carriage return and space. The separators
      \<^verbatim>\<open>0x1C\<close> to \<^verbatim>\<open>0x1F\<close>, white space for \<^verbatim>\<open>str.isspace\<close>, are not skipped.\<close>
  "is_int_space c = (c \<in> set [CHR 0x09, CHR 0x0A, CHR 0x0B, CHR 0x0C, CHR 0x0D, CHR '' ''])"

definition lstrip :: "(char \<Rightarrow> bool) \<Rightarrow> string \<Rightarrow> string" where
  "lstrip p s = dropWhile p s"

definition rstrip :: "(char \<Rightarrow> bool) \<Rightarrow> string \<Rightarrow> string" where
  "rstrip p s = rev (dropWhile p (rev s))"

definition int_strip :: "string \<Rightarrow> string" where
  "int_strip s = lstrip is_int_space (rstrip is_int_space s)"

fun split_on :: "char \<Rightarrow> string \<Rightarrow> string list" where
  "split_on sep [] = [[]]"
| "split_on sep (c # cs) =
     (if c = sep then [] # split_on sep cs
      else (case split_on sep cs of [] \<Rightarrow> [[c]] | w # ws \<Rightarrow> (c # w) # ws))"

definition startswith :: "string \<Rightarrow> string \<Rightarrow> bool" where
  "startswith pre s = (take (length pre) s = pre)"

definition endswith :: "string \<Rightarrow> string \<Rightarrow> bool" where
  "endswith suf s = (drop (length s - length suf) s = suf)"

definition lower_char :: "char \<Rightarrow> char" where
  "lower_char c =
     (case map_of (zip ''ABCDEFGHIJKLMNOPQRSTUVWXYZ'' ''abcdefghijklmnopqrstuvwxyz'') c of
        Some l \<Rightarrow> l
      | None \<Rightarrow> c)"

definition lower :: "string \<Rightarrow> string" where
  "lower s = map lower_char s"

definition digit_of :: "char \<Rightarrow> nat option" where
  "digit_of c =
     (let n = (of_char c :: nat) in if 48 \<le> n \<and> n \<le> 57 then Some (n - 48) else None)"

fun int_digits :: "nat \<Rightarrow> string \<Rightarrow> nat option" where
  "int_digits acc [] = Some acc"
| "int_digits acc (c # cs) =
     (case digit_of c of
        Some d \<Rightarrow> int_digits (10 * acc + d) cs
      | None \<Rightarrow>
          if c = CHR ''_'' then
            (case cs of
               [] \<Rightarrow> None
             | c' # cs' \<Rightarrow>
                 (case digit_of c' of
                    Some d \<Rightarrow> int_digits (10 * acc + d) cs'
                  | None \<Rightarrow> None))
          else None)"

definition int_unsigned :: "string \<Rightarrow> nat option" where
  "int_unsigned s =
     (case s of
        [] \<Rightarrow> None
      | c # cs \<Rightarrow> (case digit_of c of None \<Rightarrow> None | Some d \<Rightarrow> int_digits d cs))"

definition py_int :: "string \<Rightarrow> int option" where
  \<comment> \<open>\<^verbatim>\<open>int(s)\<close> in base ten; \<open>None\<close> is the \<^verbatim>\<open>ValueError\<close>.\<close>
  "py_int s =
     (case int_strip s of
        [] \<Rightarrow> None
      | c # cs \<Rightarrow>
          if c = CHR ''-'' then map_option (\<lambda>n. - int n) (int_unsigned cs)
          else if c = CHR ''+'' then map_option int (int_unsigned cs)
          else map_option int (int_unsigned (c # cs)))"

definition digit_char :: "nat \<Rightarrow> char" where
  "digit_char d = ''0123456789'' ! d"

fun nat_digits :: "nat \<Rightarrow> string" where
  "nat_digits n =
     (if n < 10 then [digit_char n]
      else nat_digits (n div 10) @ [digit_char (n mod 10)])"

declare nat_digits.simps [simp del]

definition str_int :: "int \<Rightarrow> string" where
  \<comment> \<open>\<^verbatim>\<open>str(i)\<close> for a Python integer.\<close>
  "str_int i = (if i < 0 then CHR ''-'' # nat_digits (nat (- i)) else nat_digits (nat i))"

datatype pyval = VBool bool | VInt int | VStr string | VTuple int int

fun py_str :: "pyval \<Rightarrow> string" where
  "py_str (VBool b) = (if b then ''True'' else ''False'')"
| "py_str (VInt i) = str_int i"
| "py_str (VStr s) = s"
| "py_str (VTuple a b) = ''('' @ str_int a @ '', '' @ str_int b @ '')''"

definition quote :: string where
  "quote = [CHR 0x27]"

definition newline :: string where
  "newline = [CHR 0x0A]"

section \<open>\<^verbatim>\<open>vimiv/configparser.py\<close>: the settings file\<close>

text \<open>
  A \<^verbatim>\<open>configparser.ConfigParser\<close> that has read its files is a dictionary from section names
  to sections, a section a dictionary from option names (in lower case, as the parser
  stores them) to strings. \<^verbatim>\<open>overwrite_section\<close> only reads the parser, so for it a section
  holds the strings that \<^verbatim>\<open>section[option]\<close> returns. Reading the files belongs to the
  standard library and stays outside the embedding; the \<^verbatim>\<open>DEFAULT\<close> section is taken to be
  empty.

  What \<^verbatim>\<open>os.path\<close> answers depends on the machine, so it is a parameter: the home directory
  of the current user, the home directories of named users, and the set of existing
  directories.
\<close>

type_synonym section_proxy = "string dict"

type_synonym config = "section_proxy dict"

type_synonym settings = "(pyval dict) dict"

record os_env =
  home :: "string option"
  pw_dir :: "string \<Rightarrow> string option"
  isdir :: "string \<Rightarrow> bool"

definition expanduser :: "os_env \<Rightarrow> string \<Rightarrow> string" where
  \<comment> \<open>\<^verbatim>\<open>posixpath.expanduser\<close>: only a leading \<^verbatim>\<open>~\<close> or \<^verbatim>\<open>~user\<close> is replaced.\<close>
  "expanduser env path =
     (if \<not> startswith ''~'' path then path
      else
        (let name = takeWhile (\<lambda>c. c \<noteq> CHR ''/'') (tl path);
             rest = dropWhile (\<lambda>c. c \<noteq> CHR ''/'') (tl path)
         in case (if name = [] then home env else pw_dir env name) of
              None \<Rightarrow> path
            | Some userhome \<Rightarrow>
                (let r = rstrip (\<lambda>c. c = CHR ''/'') userhome @ rest
                 in if r = [] then ''/'' else r)))"

definition set_defaults :: "os_env \<Rightarrow> settings" where
  "set_defaults env =
     [(''GENERAL'',
         [(''start_fullscreen'', VBool False),
          (''start_slideshow'', VBool False),
          (''slideshow_delay'', VInt 2),
          (''shuffle'', VBool False),
          (''display_bar'', VBool True),
          (''default_thumbsize'', VTuple 128 128),
          (''geometry'', VStr ''800x600''),
          (''search_case_sensitive'', VBool True),
          (''incsearch'', VBool True),
          (''recursive'', VBool False),
          (''rescale_svg'', VBool True),
          (''overzoom'', VBool False),
          (''copy_to_primary'', VBool False),
          (''commandline_padding'', VInt 6),
          (''thumb_padding'', VInt 10),
          (''completion_height'', VInt 200)]),
      (''LIBRARY'',
         [(''show_library'', VBool False),
          (''library_width'', VInt 300),
          (''expand_lib'', VBool True),
          (''border_width'', VInt 0),
          (''markup'', VStr (''<span foreground='' @ [CHR 0x22] @ ''#875FFF'' @ [CHR 0x22] @ ''>'')),
          (''show_hidden'', VBool False),
          (''desktop_start_dir'', VStr (expanduser env ''~'')),
          (''file_check_amount'', VInt 30),
          (''tilde_in_statusbar'', VBool True)]),
      (''ALIASES'', [])]"

definition getboolean :: "string \<Rightarrow> bool option" where
  \<comment> \<open>\<^verbatim>\<open>ConfigParser.getboolean\<close>; \<open>None\<close> is its \<^verbatim>\<open>ValueError\<close>.\<close>
  "getboolean v =
     (if lower v \<in> set [''1'', ''yes'', ''true'', ''on''] then Some True
      else if lower v \<in> set [''0'', ''no'', ''false'', ''off''] then Some False
      else None)"

text \<open>
  The body of the \<^verbatim>\<open>try\<close> block of \<^verbatim>\<open>overwrite_section\<close>, for one option. \<open>Store v\<close>: the
  assignment \<^verbatim>\<open>settings[key][setting] = v\<close> is reached. \<open>Continue\<close>: the \<^verbatim>\<open>continue\<close>
  statement. \<open>Invalid\<close>: a \<^verbatim>\<open>ValueError\<close>, which the \<^verbatim>\<open>except\<close> clause catches. \<open>Uncaught e\<close>:
  any other exception, which leaves the function.
\<close>

datatype parsed = Store pyval | Continue | Invalid | Uncaught py_exn

definition parse_setting :: "os_env \<Rightarrow> string \<Rightarrow> string \<Rightarrow> parsed" where
  "parse_setting env setting raw =
     (if setting = ''geometry'' then Store (VStr raw)
      else if setting \<in> set [''default_thumbsize''] then
        (let file_set =
               split_on CHR '','' (rstrip (\<lambda>c. c = CHR '')'') (lstrip (\<lambda>c. c = CHR ''('') raw))
         in case file_set of
              [] \<Rightarrow> Uncaught IndexError
            | x0 # rest \<Rightarrow>
                (case py_int x0 of
                   None \<Rightarrow> Invalid
                 | Some a \<Rightarrow>
                     (case rest of
                        [] \<Rightarrow> Uncaught IndexError
                      | x1 # rest' \<Rightarrow>
                          (case py_int x1 of
                             None \<Rightarrow> Invalid
                           | Some b \<Rightarrow>
                               if length file_set \<noteq> 2 then Invalid
                               else Store (VTuple a b)))))
      else if setting \<in> set [''library_width'', ''slideshow_delay'', ''file_check_amount'',
                               ''commandline_padding'', ''thumb_padding'',
                               ''completion_height'', ''border_width''] then
        (case py_int raw of None \<Rightarrow> Invalid | Some i \<Rightarrow> Store (VInt i))
      else if setting = ''desktop_start_dir'' then
        (let file_set = expanduser env raw
         in if \<not> isdir env file_set then Continue else Store (VStr file_set))
      else if setting = ''markup'' then
        (if \<not> startswith ''<span '' raw then Continue
         else if \<not> endswith ''>'' raw then Continue
         else Store (VStr raw))
      else
        (case getboolean raw of None \<Rightarrow> Invalid | Some b \<Rightarrow> Store (VBool b)))"

definition unknown_warning :: "string \<Rightarrow> string" where
  "unknown_warning setting = ''Ignoring unknown setting '' @ setting @ ''.''"

definition fallback_warning :: "string \<Rightarrow> string \<Rightarrow> pyval \<Rightarrow> string" where
  "fallback_warning raw setting prior =
     ''Invalid setting '' @ quote @ raw @ quote @ '' for '' @ quote @ setting @ quote @ ''.''
       @ newline @ ''Falling back to default '' @ quote @ py_str prior @ quote @ ''.''
       @ newline @ newline"

definition overwrite_setting ::
  "os_env \<Rightarrow> string \<Rightarrow> string \<Rightarrow> string \<Rightarrow> settings \<times> string \<Rightarrow> py_exn + settings \<times> string"
where
  \<comment> \<open>One turn of the loop \<^verbatim>\<open>for setting in section\<close>, with \<open>raw = section[setting]\<close>.\<close>
  "overwrite_setting env key setting raw acc =
     (case map_of (fst acc) key of
        None \<Rightarrow> Inl (KeyError key)
      | Some known \<Rightarrow>
          (case map_of known setting of
             None \<Rightarrow> Inr (fst acc, snd acc @ unknown_warning setting)
           | Some prior \<Rightarrow>
               (case parse_setting env setting raw of
                  Store file_set \<Rightarrow>
                    Inr (dict_set (fst acc) key (dict_set known setting file_set), snd acc)
                | Continue \<Rightarrow> Inr acc
                | Invalid \<Rightarrow> Inr (fst acc, snd acc @ fallback_warning raw setting prior)
                | Uncaught e \<Rightarrow> Inl e)))"

fun overwrite_loop ::
  "os_env \<Rightarrow> string \<Rightarrow> section_proxy \<Rightarrow> settings \<times> string \<Rightarrow> py_exn + settings \<times> string"
where
  "overwrite_loop env key [] acc = Inr acc"
| "overwrite_loop env key ((setting, raw) # rest) acc =
     (case overwrite_setting env key setting raw acc of
        Inl e \<Rightarrow> Inl e
      | Inr acc' \<Rightarrow> overwrite_loop env key rest acc')"

definition overwrite_section ::
  "os_env \<Rightarrow> string \<Rightarrow> config \<Rightarrow> settings \<Rightarrow> py_exn + settings \<times> string"
where
  "overwrite_section env key config settings =
     (case map_of config key of
        None \<Rightarrow> Inl (KeyError key)
      | Some sect \<Rightarrow> overwrite_loop env key sect (settings, ''''))"

text \<open>
  The type at which \<^verbatim>\<open>overwrite_section\<close> parses each option, read off its dispatch on the
  option's name, and the values of each type. A path is a value of the path type when it
  names an existing directory and is written in expanded form (no leading \<^verbatim>\<open>~\<close>); a string
  is a value of the markup type when it opens a \<^verbatim>\<open>span\<close> tag. A string value has no
  \<^verbatim>\<open>%\<close>: the parser gives that character a meaning of its own (interpolation), so a string
  with it is not read back as it was written.
\<close>

datatype value_kind = KBool | KInt | KTuple | KRaw | KMarkup | KPath

definition kind_of :: "string \<Rightarrow> value_kind" where
  "kind_of setting =
     (if setting = ''geometry'' then KRaw
      else if setting = ''default_thumbsize'' then KTuple
      else if setting \<in> set [''library_width'', ''slideshow_delay'', ''file_check_amount'',
                               ''commandline_padding'', ''thumb_padding'',
                               ''completion_height'', ''border_width''] then KInt
      else if setting = ''desktop_start_dir'' then KPath
      else if setting = ''markup'' then KMarkup
      else KBool)"

fun has_kind :: "os_env \<Rightarrow> value_kind \<Rightarrow> pyval \<Rightarrow> bool" where
  "has_kind env KBool (VBool b) = True"
| "has_kind env KInt (VInt i) = True"
| "has_kind env KTuple (VTuple a b) = True"
| "has_kind env KRaw (VStr s) = (CHR ''%'' \<notin> set s)"
| "has_kind env KMarkup (VStr s) =
     (startswith ''<span '' s \<and> endswith ''>'' s \<and> CHR ''%'' \<notin> set s)"
| "has_kind env KPath (VStr p) =
     (isdir env p \<and> \<not> startswith ''~'' p \<and> CHR ''%'' \<notin> set p)"
| "has_kind env k v = False"

definition lookup2 :: "('v dict) dict \<Rightarrow> string \<Rightarrow> string \<Rightarrow> 'v option" where
  \<comment> \<open>\<^verbatim>\<open>d[outer][inner]\<close>, \<open>None\<close> when either key is absent.\<close>
  "lookup2 d outer inner = (case map_of d outer of None \<Rightarrow> None | Some e \<Rightarrow> map_of e inner)"

section \<open>\<^verbatim>\<open>vimiv/configparser.py\<close>: the keys file\<close>

text \<open>
  \<^verbatim>\<open>parse_keys\<close> reads the parser and writes to it: \<^verbatim>\<open>keydict.update(keys[section])\<close> runs
  \<^verbatim>\<open>keydict[key] = keys[section][key]\<close> for every option of the shared section, and both sides
  are section proxies. So here a section holds the option values as the parser stores them.
  Reading an option through a proxy (\<open>section_get\<close>) interpolates the stored value as
  \<^verbatim>\<open>BasicInterpolation\<close> does: \<^verbatim>\<open>%%\<close> stands for a percent sign, \<^verbatim>\<open>%(name)s\<close> for the value of
  the option \<^verbatim>\<open>name\<close> of the same section, interpolated in turn, up to ten levels deep; any
  other use of \<^verbatim>\<open>%\<close> raises. Writing an option through a proxy (\<open>section_set\<close>) raises
  \<^verbatim>\<open>ValueError\<close> when the value has a \<^verbatim>\<open>%\<close> outside these two forms, and stores the value as
  it is otherwise. The mappings that \<^verbatim>\<open>parse_keys\<close> returns are proxies too: the command of
  a key is what reading it gives (\<open>read_binding\<close>).
\<close>

definition reference_name :: "string \<Rightarrow> string" where
  "reference_name r = takeWhile (\<lambda>x. x \<noteq> CHR '')'') r"

definition after_name :: "string \<Rightarrow> string" where
  "after_name r = dropWhile (\<lambda>x. x \<noteq> CHR '')'') r"

definition is_reference :: "string \<Rightarrow> bool" where
  "is_reference r = (if reference_name r = [] then False else startswith '')s'' (after_name r))"

definition after_reference :: "string \<Rightarrow> string" where
  "after_reference r = drop 2 (after_name r)"

function interpolate_some :: "section_proxy \<Rightarrow> nat \<Rightarrow> string \<Rightarrow> py_exn + string" where
  "interpolate_some m depth rest =
     (if depth > 10 then Inl InterpolationDepthError
      else
        (case rest of
           [] \<Rightarrow> Inr []
         | c # cs \<Rightarrow>
             if c \<noteq> CHR ''%'' then
               (case interpolate_some m depth cs of
                  Inl e \<Rightarrow> Inl e
                | Inr a \<Rightarrow> Inr (c # a))
             else
               (case cs of
                  [] \<Rightarrow> Inl InterpolationSyntaxError
                | c1 # r \<Rightarrow>
                    if c1 = CHR ''%'' then
                      (case interpolate_some m depth r of
                         Inl e \<Rightarrow> Inl e
                       | Inr a \<Rightarrow> Inr (CHR ''%'' # a))
                    else if c1 = CHR ''('' then
                      (if \<not> is_reference r then Inl InterpolationSyntaxError
                       else
                         (case map_of m (lower (reference_name r)) of
                            None \<Rightarrow> Inl InterpolationMissingOptionError
                          | Some v \<Rightarrow>
                              (case (if CHR ''%'' \<in> set v
                                     then interpolate_some m (depth + 1) v
                                     else Inr v) of
                                 Inl e \<Rightarrow> Inl e
                               | Inr a \<Rightarrow>
                                   (case interpolate_some m depth (after_reference r) of
                                      Inl e \<Rightarrow> Inl e
                                    | Inr b \<Rightarrow> Inr (a @ b)))))
                    else Inl InterpolationSyntaxError)))"
  by pat_completeness auto
termination
  by (relation "measures [\<lambda>(m, depth, rest). 11 - depth, \<lambda>(m, depth, rest). length rest]")
    (auto simp: after_reference_def after_name_def less_Suc_eq_le
       intro!: le_SucI le_trans[OF diff_le_self length_dropWhile_le])

declare interpolate_some.simps [simp del]

fun remove_escaped :: "string \<Rightarrow> string" where
  "remove_escaped (a # b # cs) =
     (if a = CHR ''%'' \<and> b = CHR ''%'' then remove_escaped cs
      else a # remove_escaped (b # cs))"
| "remove_escaped cs = cs"

function remove_references :: "string \<Rightarrow> string" where
  "remove_references [] = []"
| "remove_references (c # cs) =
     (if c = CHR ''%'' \<and> startswith ''('' cs \<and> is_reference (tl cs)
      then remove_references (after_reference (tl cs))
      else c # remove_references cs)"
  by pat_completeness auto
termination
  by (relation "measure length")
    (auto simp: after_reference_def after_name_def less_Suc_eq_le
       intro!: le_trans[OF diff_le_self] le_trans[OF length_dropWhile_le])

definition before_set :: "string \<Rightarrow> py_exn + string" where
  "before_set v =
     (if CHR ''%'' \<in> set (remove_references (remove_escaped v)) then Inl ValueError
      else Inr v)"

definition section_get :: "section_proxy \<Rightarrow> string \<Rightarrow> py_exn + string" where
  "section_get sect opt =
     (case map_of sect opt of
        None \<Rightarrow> Inl (KeyError opt)
      | Some raw \<Rightarrow> interpolate_some sect 1 raw)"

definition section_set :: "section_proxy \<Rightarrow> string \<Rightarrow> string \<Rightarrow> py_exn + section_proxy" where
  "section_set sect opt v =
     (case before_set v of Inl e \<Rightarrow> Inl e | Inr v' \<Rightarrow> Inr (dict_set sect opt v'))"

fun section_update ::
  "section_proxy \<Rightarrow> section_proxy \<Rightarrow> string list \<Rightarrow> py_exn + section_proxy"
where
  "section_update keydict other [] = Inr keydict"
| "section_update keydict other (k # ks) =
     (case section_get other k of
        Inl e \<Rightarrow> Inl e
      | Inr v \<Rightarrow>
          (case section_set keydict k v of
             Inl e \<Rightarrow> Inl e
           | Inr keydict' \<Rightarrow> section_update keydict' other ks))"

text \<open>
  \<^verbatim>\<open>parse_keys\<close> starts from \<^verbatim>\<open>keys.read(keyfiles)\<close>. That call either returns the list of the
  files it could read, leaving their content in the parser, or raises:
  \<^verbatim>\<open>DuplicateOptionError\<close>, which \<^verbatim>\<open>parse_keys\<close> catches, or another exception of the
  parser, which it does not. \<^verbatim>\<open>sys.exit(1)\<close> after \<^verbatim>\<open>error_message(message)\<close> is the outcome
  \<open>Exit 1 message\<close>; an exception that leaves \<^verbatim>\<open>parse_keys\<close> is \<open>Raised\<close>; a normal return
  carries the keybindings and the lines printed on the way.
\<close>

datatype read_result =
    Read_ok "string list" config
  | Duplicate_option string
  | Read_raises py_exn

datatype 'a outcome = Returned 'a | Exit nat string | Raised py_exn

definition deprecation_notice :: "string \<Rightarrow> string" where
  "deprecation_notice s =
     ''Section '' @ s @ '' is deprecated and will be removed in a future version.''"

fun update_keybindings ::
  "config \<Rightarrow> string list \<Rightarrow> section_proxy \<times> string list
     \<Rightarrow> py_exn + section_proxy \<times> string list"
where
  "update_keybindings keys [] acc = Inr acc"
| "update_keybindings keys (s # sections) acc =
     (case map_of keys s of
        None \<Rightarrow> update_keybindings keys sections acc
      | Some shared \<Rightarrow>
          (case section_update (fst acc) shared (map fst shared) of
             Inl e \<Rightarrow> Inl e
           | Inr keydict \<Rightarrow>
               update_keybindings keys sections (keydict, snd acc @ [deprecation_notice s])))"

definition missing_section_message :: "string \<Rightarrow> string" where
  "missing_section_message s =
     ''Missing section '' @ quote @ s @ quote @ '' in keys.conf.'' @ newline
       @ ''Refer to vimivrc(5) to fix your config.''"

definition merge_shared ::
  "config \<Rightarrow> section_proxy \<Rightarrow> section_proxy \<Rightarrow> section_proxy \<Rightarrow> section_proxy
     \<Rightarrow> section_proxy \<Rightarrow> (config \<times> string list) outcome"
where
  \<comment> \<open>The end of \<^verbatim>\<open>parse_keys\<close>, from its three calls of \<^verbatim>\<open>update_keybindings\<close> on.\<close>
  "merge_shared keys keys_image keys_thumbnail keys_library keys_manipulate keys_command =
     (case update_keybindings keys [''GENERAL'', ''IM_THUMB'', ''IM_LIB'']
             (keys_image, []) of
        Inl e \<Rightarrow> Raised e
      | Inr i \<Rightarrow>
     (case update_keybindings keys [''GENERAL'', ''IM_THUMB'']
             (keys_thumbnail, snd i) of
        Inl e \<Rightarrow> Raised e
      | Inr t \<Rightarrow>
     (case update_keybindings keys [''GENERAL'', ''IM_LIB'']
             (keys_library, snd t) of
        Inl e \<Rightarrow> Raised e
      | Inr l \<Rightarrow>
          Returned
            ([(''IMAGE'', fst i),
              (''THUMBNAIL'', fst t),
              (''LIBRARY'', fst l),
              (''MANIPULATE'', keys_manipulate),
              (''COMMAND'', keys_command)],
             snd l))))"

definition parse_keys :: "read_result \<Rightarrow> (config \<times> string list) outcome" where
  "parse_keys r =
     (case r of
        Read_raises e \<Rightarrow> Raised e
      | Duplicate_option msg \<Rightarrow>
          Exit 1 (msg @ ''.'' @ newline @ '' Duplicate keybinding. Exiting.'')
      | Read_ok read_files keys \<Rightarrow>
          if read_files = [] then Exit 1 ''Keyfile not found. Exiting.''
          else
            (case map_of keys ''IMAGE'' of
               None \<Rightarrow> Exit 1 (missing_section_message ''IMAGE'')
             | Some keys_image \<Rightarrow>
            (case map_of keys ''THUMBNAIL'' of
               None \<Rightarrow> Exit 1 (missing_section_message ''THUMBNAIL'')
             | Some keys_thumbnail \<Rightarrow>
            (case map_of keys ''LIBRARY'' of
               None \<Rightarrow> Exit 1 (missing_section_message ''LIBRARY'')
             | Some keys_library \<Rightarrow>
            (case map_of keys ''MANIPULATE'' of
               None \<Rightarrow> Exit 1 (missing_section_message ''MANIPULATE'')
             | Some keys_manipulate \<Rightarrow>
            (case map_of keys ''COMMAND'' of
               None \<Rightarrow> Exit 1 (missing_section_message ''COMMAND'')
             | Some keys_command \<Rightarrow>
                 merge_shared keys keys_image keys_thumbnail keys_library
                   keys_manipulate keys_command))))))"

text \<open>
  Vocabulary for the properties of \<^verbatim>\<open>parse_keys\<close>: the five required sections and the first
  of them that a parser lacks; the deprecated shared sections that \<^verbatim>\<open>parse_keys\<close> merges into
  each mode, in the order of its three calls of \<^verbatim>\<open>update_keybindings\<close>; the command that the
  last of a list of shared sections to define a key gives it, as read from that section;
  and the command that a key has in a mode of the returned keybindings.
\<close>

definition required_sections :: "string list" where
  "required_sections = [''IMAGE'', ''THUMBNAIL'', ''LIBRARY'', ''MANIPULATE'', ''COMMAND'']"

definition first_missing :: "config \<Rightarrow> string option" where
  "first_missing keys = find (\<lambda>s. map_of keys s = None) required_sections"

definition no_keyfile :: "read_result \<Rightarrow> bool" where
  "no_keyfile r = (case r of Read_ok read_files keys \<Rightarrow> read_files = [] | _ \<Rightarrow> False)"

definition duplicate_option :: "read_result \<Rightarrow> bool" where
  "duplicate_option r = (case r of Duplicate_option msg \<Rightarrow> True | _ \<Rightarrow> False)"

definition section_missing :: "read_result \<Rightarrow> bool" where
  "section_missing r =
     (case r of Read_ok read_files keys \<Rightarrow> first_missing keys \<noteq> None | _ \<Rightarrow> False)"

definition shared_sections :: "string \<Rightarrow> string list" where
  "shared_sections mode =
     (if mode = ''IMAGE'' then [''GENERAL'', ''IM_THUMB'', ''IM_LIB'']
      else if mode = ''THUMBNAIL'' then [''GENERAL'', ''IM_THUMB'']
      else if mode = ''LIBRARY'' then [''GENERAL'', ''IM_LIB'']
      else [])"

definition read_option :: "section_proxy \<Rightarrow> string \<Rightarrow> string option" where
  "read_option sect opt = (case section_get sect opt of Inl e \<Rightarrow> None | Inr c \<Rightarrow> Some c)"

fun shared_binding :: "config \<Rightarrow> string list \<Rightarrow> string \<Rightarrow> string option" where
  "shared_binding keys [] k = None"
| "shared_binding keys (s # ss) k =
     (case shared_binding keys ss k of
        Some c \<Rightarrow> Some c
      | None \<Rightarrow> (case map_of keys s of None \<Rightarrow> None | Some shared \<Rightarrow> read_option shared k))"

definition read_binding :: "config \<Rightarrow> string \<Rightarrow> string \<Rightarrow> py_exn + string" where
  "read_binding keybindings mode k =
     (case map_of keybindings mode of
        None \<Rightarrow> Inl (KeyError mode)
      | Some sect \<Rightarrow> section_get sect k)"

definition keys_example :: config where
  "keys_example =
     [(''IMAGE'', [(''a'', ''next''), (''b'', ''zoom_in'')]),
      (''THUMBNAIL'', [(''a'', ''toggle'')]),
      (''LIBRARY'', []),
      (''MANIPULATE'', []),
      (''COMMAND'', []),
      (''GENERAL'', [(''a'', ''prev'')])]"

definition keys_incomplete :: config where
  "keys_incomplete =
     [(''IMAGE'', [(''a'', ''next'')]),
      (''THUMBNAIL'', []),
      (''LIBRARY'', []),
      (''COMMAND'', [])]"

definition keys_percent :: config where
  "keys_percent =
     [(''IMAGE'', [(''a'', ''next'')]),
      (''THUMBNAIL'', []),
      (''LIBRARY'', []),
      (''MANIPULATE'', []),
      (''COMMAND'', []),
      (''GENERAL'', [(''a'', ''zoom 50%%'')])]"

definition keys_escaped :: config where
  "keys_escaped =
     [(''IMAGE'', [(''a'', ''next'')]),
      (''THUMBNAIL'', []),
      (''LIBRARY'', []),
      (''MANIPULATE'', []),
      (''COMMAND'', []),
      (''GENERAL'', [(''a'', ''100%%%%'')])]"

section \<open>\<^verbatim>\<open>vimiv/library.py\<close>: the library pane\<close>

text \<open>
  The state of a \<^verbatim>\<open>Library\<close> object together with what it reads from its siblings through
  \<^verbatim>\<open>self.app\<close>: the pending numeric prefix of the key handler, the search positions of the
  command line, the width of the window, whether the image was zoomed by the user, and the
  list of loaded paths. What the pane does to the toolkit and to the status bar is recorded
  in call logs, each call appended at the end: the row of every \<^verbatim>\<open>treeview.set_cursor\<close>
  (always followed by \<^verbatim>\<open>scroll_to_cell\<close> on the same row), the text of every
  \<^verbatim>\<open>statusbar.err_message\<close>, the width of every \<^verbatim>\<open>set_size_request\<close> and the argument of
  every \<^verbatim>\<open>image.zoom_to\<close>.
\<close>

record library =
  files :: "string list"
  dir_pos :: "int dict"
  default_width :: int
  width :: int
  grid_visible :: bool
  num_str :: string
  search_positions :: "int list"
  winsize_width :: int
  user_zoomed :: bool
  paths :: "string list"
  set_cursor_calls :: "int list"
  err_messages :: "string list"
  size_requests :: "int list"
  zoom_to_calls :: "int list"

definition err_message :: "string \<Rightarrow> library \<Rightarrow> library" where
  "err_message m s = s\<lparr>err_messages := err_messages s @ [m]\<rparr>"

definition set_cursor :: "int \<Rightarrow> library \<Rightarrow> library" where
  "set_cursor pos s = s\<lparr>set_cursor_calls := set_cursor_calls s @ [pos]\<rparr>"

definition num_clear :: "library \<Rightarrow> library" where
  \<comment> \<open>Modelled from the spec: \<^verbatim>\<open>keyhandler.num_clear\<close> is not part of the two modules; the
      spec has it clear the pending numeric prefix.\<close>
  "num_clear s = s\<lparr>num_str := ''''\<rparr>"

definition remember_pos :: "string \<Rightarrow> int \<Rightarrow> library \<Rightarrow> library" where
  "remember_pos directory position s = s\<lparr>dir_pos := dict_set (dir_pos s) directory position\<rparr>"

definition basename :: "string \<Rightarrow> string" where
  \<comment> \<open>\<^verbatim>\<open>os.path.basename\<close>: what follows the last slash.\<close>
  "basename p = rev (takeWhile (\<lambda>c. c \<noteq> CHR ''/'') (rev p))"

fun index_of :: "'a \<Rightarrow> 'a list \<Rightarrow> nat" where
  \<comment> \<open>\<^verbatim>\<open>list.index\<close>, used only on an element of the list.\<close>
  "index_of x [] = 0"
| "index_of x (y # ys) = (if x = y then 0 else Suc (index_of x ys))"

definition move_pos :: "bool \<Rightarrow> int option \<Rightarrow> library \<Rightarrow> py_exn + library" where
  \<comment> \<open>\<open>defined_pos = None\<close> is the default argument; \<open>Inl ValueError\<close> is \<^verbatim>\<open>int(num_str)\<close>
      failing on a prefix that is not a number.\<close>
  "move_pos forward defined_pos s =
     (if files s = [] then Inr (err_message ''Warning: Directory is empty'' s)
      else
        (let max_pos = int (length (files s)) - 1
         in case defined_pos of
              Some new_pos \<Rightarrow> Inr (num_clear (set_cursor new_pos s))
            | None \<Rightarrow>
                if num_str s \<noteq> [] then
                  (case py_int (num_str s) of
                     None \<Rightarrow> Inl ValueError
                   | Some n \<Rightarrow>
                       (let new_pos = n - 1; s1 = num_clear s
                        in if new_pos < 0 \<or> new_pos > max_pos
                           then Inr (err_message ''Warning: Unsupported index'' s1)
                           else Inr (num_clear (set_cursor new_pos s1))))
                else if forward then Inr (num_clear (set_cursor max_pos s))
                else Inr (num_clear (set_cursor 0 s))))"

text \<open>
  \<^verbatim>\<open>focus\<close> calls \<^verbatim>\<open>toggle\<close> when the pane is hidden. \<^verbatim>\<open>toggle\<close> works on the image, the
  slideshow and the thumbnail components, which are other modules, so its effect on the
  pane is a parameter of \<^verbatim>\<open>focus\<close> and of \<^verbatim>\<open>reload\<close>; taking the keyboard focus and
  refreshing the status bar leave the state above as it is. A second parameter of \<^verbatim>\<open>reload\<close>
  is the listing that \<^verbatim>\<open>liststore_create\<close> reads from the file system and stores in
  \<^verbatim>\<open>self.files\<close>.
\<close>

definition focus :: "(library \<Rightarrow> library) \<Rightarrow> bool \<Rightarrow> library \<Rightarrow> library" where
  "focus toggle focus_library s =
     (if focus_library then (if \<not> grid_visible s then toggle s else s) else s)"

definition reloaded :: "(library \<Rightarrow> library) \<Rightarrow> string list \<Rightarrow> bool \<Rightarrow> library \<Rightarrow> library" where
  \<comment> \<open>\<^verbatim>\<open>reload\<close> up to its test of \<^verbatim>\<open>dir_pos\<close>: search positions reset unless the reload
      comes from a search, the new listing stored, the focus taken.\<close>
  "reloaded toggle listing search s =
     (let s1 = (if \<not> search then s\<lparr>search_positions := []\<rparr> else s);
          s2 = s1\<lparr>files := listing\<rparr>
      in focus toggle True s2)"

definition reload ::
  "(library \<Rightarrow> library) \<Rightarrow> string list \<Rightarrow> string \<Rightarrow> string \<Rightarrow> bool \<Rightarrow> library
     \<Rightarrow> py_exn + library"
where
  "reload toggle listing directory last_directory search s =
     (let s3 = reloaded toggle listing search s
      in case map_of (dir_pos s3) directory of
           Some pos \<Rightarrow> move_pos True (Some pos) s3
         | None \<Rightarrow>
             if basename last_directory \<in> set (files s3)
             then move_pos True (Some (int (index_of (basename last_directory) (files s3)))) s3
             else Inr s3)"

text \<open>
  The \<^verbatim>\<open>val\<close> argument of \<^verbatim>\<open>resize\<close> is \<^verbatim>\<open>None\<close>, an integer or a string (from the command
  line). \<open>truthy\<close> is Python's truth value, \<open>int_of_arg\<close> is \<^verbatim>\<open>int(val)\<close> with \<open>None\<close> for
  any exception, all of which the bare \<^verbatim>\<open>except\<close> catches.
\<close>

datatype pyarg = ANone | AInt int | AStr string

fun truthy :: "pyarg \<Rightarrow> bool" where
  "truthy ANone = False"
| "truthy (AInt i) = (i \<noteq> 0)"
| "truthy (AStr v) = (v \<noteq> [])"

fun int_of_arg :: "pyarg \<Rightarrow> int option" where
  "int_of_arg ANone = None"
| "int_of_arg (AInt i) = Some i"
| "int_of_arg (AStr v) = py_int v"

definition apply_limits :: "library \<Rightarrow> library" where
  \<comment> \<open>The end of \<^verbatim>\<open>resize\<close>, from \<^verbatim>\<open># Set some reasonable limits\<close> on.\<close>
  "apply_limits s =
     (let s1 = (if width s > winsize_width s - 200 then s\<lparr>width := winsize_width s - 200\<rparr>
                else if width s < 100 then s\<lparr>width := 100\<rparr>
                else s);
          s2 = s1\<lparr>size_requests := size_requests s1 @ [width s1]\<rparr>
      in if \<not> user_zoomed s2 \<and> paths s2 \<noteq> []
         then s2\<lparr>zoom_to_calls := zoom_to_calls s2 @ [0]\<rparr>
         else s2)"

definition resize :: "bool \<Rightarrow> bool \<Rightarrow> pyarg \<Rightarrow> library \<Rightarrow> library" where
  "resize inc require_val val s =
     (if require_val then
        (let val1 = (if \<not> truthy val then AInt (default_width s) else val)
         in case int_of_arg val1 of
              None \<Rightarrow> err_message ''Library width must be an integer'' s
            | Some v \<Rightarrow> apply_limits (s\<lparr>width := v\<rparr>))
      else
        (let val1 = (if \<not> truthy val then AInt 20 else val)
         in case int_of_arg val1 of
              None \<Rightarrow> err_message ''Library width must be an integer'' s
            | Some v \<Rightarrow>
                apply_limits (if inc then s\<lparr>width := width s + v\<rparr>
                              else s\<lparr>width := width s - v\<rparr>)))"

definition numeric_input :: "pyarg \<Rightarrow> bool" where
  \<comment> \<open>The argument that \<^verbatim>\<open>resize\<close> converts is a number: a falsy \<^verbatim>\<open>val\<close> is replaced by an
      integer default before the conversion.\<close>
  "numeric_input val = (if truthy val then int_of_arg val \<noteq> None else True)"

definition lib_example :: library where
  "lib_example =
     \<lparr>files = [''a.png'', ''c'', ''d.jpg'', ''e.png'', ''f.png''],
      dir_pos = [(''/a'', 3)],
      default_width = 300,
      width = 300,
      grid_visible = True,
      num_str = ''3'',
      search_positions = [1],
      winsize_width = 800,
      user_zoomed = False,
      paths = [],
      set_cursor_calls = [],
      err_messages = [],
      size_requests = [],
      zoom_to_calls = []\<rparr>"

definition env_example :: os_env where
  "env_example =
     \<lparr>home = Some ''/home/user'', pw_dir = (\<lambda>name. None), isdir = (\<lambda>p. p = ''/home/user'')\<rparr>"

section \<open>Properties of the string and integer primitives\<close>

lemma digit_of_digit_char: "d < 10 \<Longrightarrow> digit_of (digit_char d) = Some d"
proof -
  assume "d < 10"
  then have "d \<in> {0,1,2,3,4,5,6,7,8,9}" by auto
  then show ?thesis by (auto simp: digit_of_def digit_char_def)
qed

lemma int_digits_snoc:
  "int_digits acc ds = Some m \<Longrightarrow> digit_of c = Some d \<Longrightarrow> int_digits acc (ds @ [c]) = Some (10 * m + d)"
  by (induction acc ds rule: int_digits.induct) (auto split: option.splits list.splits if_splits)

lemma int_unsigned_snoc:
  "int_unsigned ds = Some m \<Longrightarrow> digit_of c = Some d \<Longrightarrow> int_unsigned (ds @ [c]) = Some (10 * m + d)"
  by (cases ds) (auto simp: int_unsigned_def int_digits_snoc split: option.splits)

lemma int_unsigned_nat_digits: "int_unsigned (nat_digits n) = Some n"
proof (induction n rule: nat_digits.induct)
  case (1 n)
  show ?case
  proof (cases "n < 10")
    case True
    then show ?thesis by (simp add: nat_digits.simps int_unsigned_def digit_of_digit_char)
  next
    case False
    with 1 have "int_unsigned (nat_digits (n div 10)) = Some (n div 10)" by simp
    then have "int_unsigned (nat_digits (n div 10) @ [digit_char (n mod 10)]) = Some (10 * (n div 10) + n mod 10)"
      by (rule int_unsigned_snoc) (simp add: digit_of_digit_char)
    with False show ?thesis by (simp add: nat_digits.simps[of n])
  qed
qed

lemma digit_of_nat_digits: "c \<in> set (nat_digits n) \<Longrightarrow> digit_of c \<noteq> None"
proof (induction n rule: nat_digits.induct)
  case (1 n)
  show ?case
  proof (cases "n < 10")
    case True
    with 1(2) show ?thesis by (simp add: nat_digits.simps digit_of_digit_char)
  next
    case False
    with 1(2) have "c \<in> set (nat_digits (n div 10)) \<or> c = digit_char (n mod 10)"
      by (auto simp: nat_digits.simps[of n])
    then show ?thesis
    proof
      assume "c \<in> set (nat_digits (n div 10))"
      with 1(1) False show ?thesis by simp
    next
      assume "c = digit_char (n mod 10)"
      then show ?thesis by (simp add: digit_of_digit_char)
    qed
  qed
qed

lemma nat_digits_nonempty: "nat_digits n \<noteq> []"
  by (subst nat_digits.simps) simp

lemma str_int_chars: "c \<in> set (str_int i) \<Longrightarrow> c = CHR ''-'' \<or> digit_of c \<noteq> None"
  by (auto simp: str_int_def dest: digit_of_nat_digits split: if_splits)

lemma str_int_nonempty: "str_int i \<noteq> []"
  by (simp add: str_int_def nat_digits_nonempty)

lemma digit_not_space: "digit_of c \<noteq> None \<Longrightarrow> \<not> is_int_space c"
  by (auto simp: digit_of_def is_int_space_def)

lemma dropWhile_none: "\<forall>x \<in> set xs. \<not> P x \<Longrightarrow> dropWhile P xs = xs"
  by (cases xs) auto

lemma lstrip_none: "\<forall>x \<in> set xs. \<not> P x \<Longrightarrow> lstrip P xs = xs"
  by (simp add: lstrip_def dropWhile_none)

lemma rstrip_none: "\<forall>x \<in> set xs. \<not> P x \<Longrightarrow> rstrip P xs = xs"
  by (simp add: rstrip_def dropWhile_none)

lemma str_int_no_space: "\<forall>c \<in> set (str_int i). \<not> is_int_space c"
proof
  fix c assume "c \<in> set (str_int i)"
  then have "c = CHR ''-'' \<or> digit_of c \<noteq> None" by (rule str_int_chars)
  then show "\<not> is_int_space c"
  proof
    assume "c = CHR ''-''" then show ?thesis by (simp add: is_int_space_def)
  next
    assume "digit_of c \<noteq> None" then show ?thesis by (rule digit_not_space)
  qed
qed

lemma int_strip_str_int: "int_strip (str_int i) = str_int i"
  by (simp add: int_strip_def lstrip_none rstrip_none str_int_no_space)

lemma py_int_str_int: "py_int (str_int i) = Some i"
proof (cases "i < 0")
  case True
  have "py_int (str_int i) = map_option (\<lambda>n. - int n) (int_unsigned (nat_digits (nat (- i))))"
    using True by (simp add: py_int_def int_strip_str_int) (simp add: str_int_def)
  then show ?thesis using True by (simp add: int_unsigned_nat_digits)
next
  case False
  obtain c cs where cs: "nat_digits (nat i) = c # cs"
    using nat_digits_nonempty[of "nat i"] by (cases "nat_digits (nat i)") auto
  have "digit_of c \<noteq> None" using digit_of_nat_digits[of c "nat i"] cs by simp
  then have "c \<noteq> CHR ''-''" "c \<noteq> CHR ''+''" by (auto simp: digit_of_def)
  then have "py_int (str_int i) = map_option int (int_unsigned (nat_digits (nat i)))"
    using False cs by (simp add: py_int_def int_strip_str_int) (simp add: str_int_def)
  then show ?thesis using False by (simp add: int_unsigned_nat_digits)
qed

lemma rstrip_last: "xs \<noteq> [] \<Longrightarrow> \<not> P (last xs) \<Longrightarrow> rstrip P xs = xs"
  by (cases xs rule: rev_cases) (simp_all add: rstrip_def)

lemma py_int_space_str_int: "py_int (CHR '' '' # str_int i) = Some i"
proof -
  have ne: "str_int i \<noteq> []" by (rule str_int_nonempty)
  then have "last (str_int i) \<in> set (str_int i)" by simp
  then have "\<not> is_int_space (last (CHR '' '' # str_int i))"
    using str_int_no_space[of i] ne by simp
  then have "rstrip is_int_space (CHR '' '' # str_int i) = CHR '' '' # str_int i"
    by (intro rstrip_last) simp_all
  moreover have "dropWhile is_int_space (str_int i) = str_int i"
    by (rule dropWhile_none) (rule str_int_no_space)
  moreover have "is_int_space CHR '' ''" by (simp add: is_int_space_def)
  ultimately have "int_strip (CHR '' '' # str_int i) = str_int i"
    by (simp add: int_strip_def lstrip_def)
  then have "py_int (CHR '' '' # str_int i) = py_int (str_int i)"
    by (simp add: py_int_def int_strip_str_int)
  then show ?thesis by (simp add: py_int_str_int)
qed

lemma split_on_sep: "sep \<notin> set xs \<Longrightarrow> split_on sep (xs @ sep # ys) = xs # split_on sep ys"
  by (induction xs) (auto split: list.splits)

lemma split_on_none: "sep \<notin> set xs \<Longrightarrow> split_on sep xs = [xs]"
  by (induction xs) (auto split: list.splits)

section \<open>Properties of \<^verbatim>\<open>overwrite_section\<close>\<close>

text \<open>
  Claim C2 (the code departs from it). A thumbnail size with a single numeric component,
  such as \<^verbatim>\<open>default_thumbsize: 128\<close>, is malformed: it has fewer than two components. The
  claim has \<^verbatim>\<open>overwrite_section\<close> keep the prior value and append the fallback warning.
  The code reads \<^verbatim>\<open>file_set[1]\<close> before it tests \<^verbatim>\<open>len(file_set) != 2\<close>, so the
  \<^verbatim>\<open>IndexError\<close> of that read, which \<^verbatim>\<open>except ValueError\<close> does not catch, leaves the function.
\<close>

theorem thumbsize_one_component_raises:
  "overwrite_section env ''GENERAL'' [(''GENERAL'', [(''default_thumbsize'', ''128'')])]
     (set_defaults env) = Inl IndexError"
  by (simp add: overwrite_section_def overwrite_setting_def set_defaults_def parse_setting_def
      lstrip_def rstrip_def py_int_def int_strip_def is_int_space_def int_unsigned_def digit_of_def)

lemma overwrite_loop_append:
  "overwrite_loop env key (xs @ ys) acc =
     (case overwrite_loop env key xs acc of Inl e \<Rightarrow> Inl e | Inr acc' \<Rightarrow> overwrite_loop env key ys acc')"
  by (induction xs arbitrary: acc) (auto split: sum.splits)

lemma overwrite_setting_known:
  assumes "overwrite_setting env key setting raw acc = Inr acc'"
  shows "lookup2 (fst acc') key k = None \<longleftrightarrow> lookup2 (fst acc) key k = None"
  using assms
  by (auto simp: overwrite_setting_def lookup2_def dict_set_def update_conv'
      split: option.splits parsed.splits if_splits)

lemma overwrite_loop_known:
  assumes "overwrite_loop env key xs acc = Inr acc'"
  shows "lookup2 (fst acc') key k = None \<longleftrightarrow> lookup2 (fst acc) key k = None"
  using assms
proof (induction xs arbitrary: acc)
  case Nil
  then show ?case by simp
next
  case (Cons x xs)
  obtain setting raw where x: "x = (setting, raw)" by (cases x)
  from Cons.prems x obtain acc1 where
    a: "overwrite_setting env key setting raw acc = Inr acc1" and
    b: "overwrite_loop env key xs acc1 = Inr acc'"
    by (auto split: sum.splits)
  from Cons.IH[OF b] overwrite_setting_known[OF a] show ?case by simp
qed


lemma str_int_no_char:
  assumes "c \<noteq> CHR ''-''" "digit_of c = None"
  shows "c \<notin> set (str_int i)"
  using assms str_int_chars[of c i] by auto

lemma tuple_fields:
  "split_on CHR '','' (rstrip (\<lambda>c. c = CHR '')'') (lstrip (\<lambda>c. c = CHR ''('')
      (''('' @ str_int a @ '', '' @ str_int b @ '')'')))
   = [str_int a, CHR '' '' # str_int b]"
proof -
  have lp: "\<And>i. CHR ''('' \<notin> set (str_int i)" by (rule str_int_no_char) (simp_all add: digit_of_def)
  have rp: "\<And>i. CHR '')'' \<notin> set (str_int i)" by (rule str_int_no_char) (simp_all add: digit_of_def)
  have cm: "\<And>i. CHR '','' \<notin> set (str_int i)" by (rule str_int_no_char) (simp_all add: digit_of_def)
  have "lstrip (\<lambda>c. c = CHR ''('') (''('' @ str_int a @ '', '' @ str_int b @ '')'')
        = str_int a @ '', '' @ str_int b @ '')''"
    using lp[of a] str_int_nonempty[of a]
    by (cases "str_int a") (auto simp: lstrip_def)
  moreover have "rstrip (\<lambda>c. c = CHR '')'') (str_int a @ '', '' @ str_int b @ '')'')
        = str_int a @ '', '' @ str_int b"
    using rp[of b] str_int_nonempty[of b]
    by (cases "str_int b" rule: rev_cases) (auto simp: rstrip_def)
  moreover have "split_on CHR '','' (str_int a @ CHR '','' # CHR '' '' # str_int b)
        = str_int a # split_on CHR '','' (CHR '' '' # str_int b)"
    by (rule split_on_sep) (rule cm)
  moreover have "split_on CHR '','' (CHR '' '' # str_int b) = [CHR '' '' # str_int b]"
    by (rule split_on_none) (simp add: cm)
  ultimately show ?thesis by simp
qed

lemma getboolean_str: "getboolean (py_str (VBool b)) = Some b"
  by (cases b) (simp_all add: getboolean_def lower_def lower_char_def)

lemma expanduser_plain: "\<not> startswith ''~'' p \<Longrightarrow> expanduser env p = p"
  by (simp add: expanduser_def)

lemma parse_setting_roundtrip:
  assumes "has_kind env (kind_of setting) v"
  shows "parse_setting env setting (py_str v) = Store v"
proof (cases "kind_of setting")
  case KBool
  with assms obtain b where v: "v = VBool b" by (cases v) auto
  from KBool have "setting \<noteq> ''geometry''" "setting \<noteq> ''default_thumbsize''"
    "setting \<notin> set [''library_width'', ''slideshow_delay'', ''file_check_amount'',
                               ''commandline_padding'', ''thumb_padding'',
                               ''completion_height'', ''border_width'']"
    "setting \<noteq> ''desktop_start_dir''" "setting \<noteq> ''markup''"
    by (auto simp: kind_of_def split: if_splits)
  then show ?thesis unfolding v parse_setting_def
    by (simp only: getboolean_str if_False set_simps insert_iff empty_iff simp_thms option.case)
next
  case KInt
  with assms obtain i where v: "v = VInt i" by (cases v) auto
  from KInt have "setting \<noteq> ''geometry''" "setting \<noteq> ''default_thumbsize''"
    "setting \<in> set [''library_width'', ''slideshow_delay'', ''file_check_amount'',
                               ''commandline_padding'', ''thumb_padding'',
                               ''completion_height'', ''border_width'']"
    by (auto simp: kind_of_def split: if_splits)
  then show ?thesis unfolding v parse_setting_def
    by (simp only: py_str.simps py_int_str_int if_False if_True set_simps insert_iff empty_iff simp_thms option.case)
next
  case KTuple
  with assms obtain a b where v: "v = VTuple a b" by (cases v) auto
  from KTuple have s: "setting = ''default_thumbsize''"
    by (auto simp: kind_of_def split: if_splits)
  show ?thesis unfolding v s parse_setting_def py_str.simps
    by (simp add: tuple_fields py_int_str_int py_int_space_str_int del: append.simps)
next
  case KRaw
  with assms obtain r where v: "v = VStr r" by (cases v) auto
  from KRaw have s: "setting = ''geometry''"
    by (auto simp: kind_of_def split: if_splits)
  show ?thesis unfolding v s parse_setting_def by simp
next
  case KMarkup
  with assms obtain r where v: "v = VStr r" and m: "startswith ''<span '' r" "endswith ''>'' r"
    by (cases v) auto
  from KMarkup have s: "setting = ''markup''"
    by (auto simp: kind_of_def split: if_splits)
  show ?thesis unfolding v s parse_setting_def using m by simp
next
  case KPath
  with assms obtain p where v: "v = VStr p" and m: "isdir env p" "\<not> startswith ''~'' p"
    by (cases v) auto
  from KPath have s: "setting = ''desktop_start_dir''"
    by (auto simp: kind_of_def split: if_splits)
  show ?thesis unfolding v s parse_setting_def using m by (simp add: expanduser_plain)
qed





lemma overwrite_setting_other:
  assumes "overwrite_setting env key setting raw acc = Inr acc'" "k \<noteq> setting"
  shows "lookup2 (fst acc') key k = lookup2 (fst acc) key k"
  using assms
  by (auto simp: overwrite_setting_def lookup2_def dict_set_def update_conv'
      split: option.splits parsed.splits if_splits)

lemma overwrite_loop_other:
  assumes "overwrite_loop env key xs acc = Inr acc'" "k \<notin> fst ` set xs"
  shows "lookup2 (fst acc') key k = lookup2 (fst acc) key k"
  using assms
proof (induction xs arbitrary: acc)
  case Nil
  then show ?case by simp
next
  case (Cons x xs)
  obtain setting raw where x: "x = (setting, raw)" by (cases x)
  from Cons.prems(1) x obtain acc1 where
    a: "overwrite_setting env key setting raw acc = Inr acc1" and
    b: "overwrite_loop env key xs acc1 = Inr acc'"
    by (auto split: sum.splits)
  from Cons.prems(2) x have ne: "k \<noteq> setting" and nin: "k \<notin> fst ` set xs" by auto
  from Cons.IH[OF b nin] overwrite_setting_other[OF a ne] show ?case by simp
qed

lemma overwrite_setting_stores:
  assumes "map_of (fst acc) key = Some known" "map_of known setting \<noteq> None"
    and "has_kind env (kind_of setting) v"
  shows "overwrite_setting env key setting (py_str v) acc =
           Inr (dict_set (fst acc) key (dict_set known setting v), snd acc)"
  using assms by (auto simp: overwrite_setting_def parse_setting_roundtrip)

text \<open>
  Claim C4. Let the section \<open>key\<close> of a configuration file give an option that the store
  knows as the string form \<^verbatim>\<open>str(v)\<close> of a value \<open>v\<close> of the type of that option (a boolean,
  an integer, a pair of integers, a raw string, a markup string, the path of an existing
  directory), at any place in the section. When the options before it have been processed,
  giving the store \<open>settings1\<close> and the message \<open>message1\<close>, \<^verbatim>\<open>overwrite_section\<close> stores \<open>v\<close>
  itself for the option, appends no message, and goes on with the remaining options. The
  store that \<^verbatim>\<open>overwrite_section\<close> returns holds \<open>v\<close> for the option, unless a later option
  of the section has the same name. The witness is the pair \<^verbatim>\<open>(128, 128)\<close>, written
  \<^verbatim>\<open>"(128, 128)"\<close>, between two other options.
\<close>

theorem setting_roundtrip:
  assumes "map_of config key = Some (before @ (setting, py_str v) # rest)"
    and "overwrite_section env key [(key, before)] settings = Inr (settings1, message1)"
    and "map_of settings1 key = Some known1"
    and "lookup2 settings key setting = Some prior"
    and "has_kind env (kind_of setting) v"
  shows "overwrite_section env key config settings =
           overwrite_loop env key rest
             (dict_set settings1 key (dict_set known1 setting v), message1)
         \<and> lookup2 (dict_set settings1 key (dict_set known1 setting v)) key setting = Some v
         \<and> (\<forall>settings' message'.
               overwrite_section env key config settings = Inr (settings', message')
                 \<and> setting \<notin> fst ` set rest \<longrightarrow>
               lookup2 settings' key setting = Some v)"
proof -
  let ?stored = "dict_set settings1 key (dict_set known1 setting v)"
  from assms(2) have pre:
    "overwrite_loop env key before (settings, '''') = Inr (settings1, message1)"
    by (simp add: overwrite_section_def)
  from overwrite_loop_known[OF pre, of setting] assms(4)
  have "lookup2 settings1 key setting \<noteq> None" by simp
  with assms(3) have known: "map_of known1 setting \<noteq> None" by (simp add: lookup2_def)
  have step: "overwrite_setting env key setting (py_str v) (settings1, message1) =
      Inr (?stored, message1)"
    using overwrite_setting_stores[of "(settings1, message1)" key known1 setting env v]
      assms(3) known assms(5)
    by simp
  have run: "overwrite_section env key config settings =
      overwrite_loop env key rest (?stored, message1)"
    by (simp add: overwrite_section_def assms(1) overwrite_loop_append pre step)
  have here: "lookup2 ?stored key setting = Some v"
    by (simp add: lookup2_def dict_set_def update_conv')
  have final: "lookup2 settings' key setting = Some v"
    if "overwrite_section env key config settings = Inr (settings', message')"
      and "setting \<notin> fst ` set rest" for settings' message'
  proof -
    from that(1) run have "overwrite_loop env key rest (?stored, message1) =
        Inr (settings', message')"
      by simp
    from overwrite_loop_other[OF this that(2)] here show ?thesis by simp
  qed
  from run here final show ?thesis by blast
qed

theorem setting_roundtrip_witness:
  "overwrite_section env_example ''GENERAL''
     [(''GENERAL'', [(''shuffle'', ''yes''), (''default_thumbsize'', ''(128, 128)''),
                     (''thumb_padding'', ''12'')])]
     [(''GENERAL'', [(''default_thumbsize'', VTuple 64 64), (''shuffle'', VBool False),
                     (''thumb_padding'', VInt 10)])]
   = Inr ([(''GENERAL'', [(''default_thumbsize'', VTuple 128 128), (''shuffle'', VBool True),
                          (''thumb_padding'', VInt 12)])], '''')"
proof -
  let ?cfg = "[(''GENERAL'', [(''shuffle'', ''yes''), (''default_thumbsize'', ''(128, 128)''),
                     (''thumb_padding'', ''12'')])]"
  let ?st = "[(''GENERAL'', [(''default_thumbsize'', VTuple 64 64), (''shuffle'', VBool False),
                     (''thumb_padding'', VInt 10)])]"
  let ?known1 = "[(''default_thumbsize'', VTuple 64 64), (''shuffle'', VBool True),
                     (''thumb_padding'', VInt 10)]"
  have s: "py_str (VTuple 128 128) = ''(128, 128)''"
    by (simp add: str_int_def nat_digits.simps digit_char_def)
  have a: "map_of ?cfg ''GENERAL'' =
      Some ([(''shuffle'', ''yes'')] @
            (''default_thumbsize'', py_str (VTuple 128 128)) # [(''thumb_padding'', ''12'')])"
    unfolding s by simp
  have b: "overwrite_section env_example ''GENERAL'' [(''GENERAL'', [(''shuffle'', ''yes'')])] ?st
      = Inr ([(''GENERAL'', ?known1)], '''')"
    by (simp add: overwrite_section_def overwrite_setting_def parse_setting_def
        getboolean_def lower_def lower_char_def dict_set_def)
  have c: "map_of [(''GENERAL'', ?known1)] ''GENERAL'' = Some ?known1" by simp
  have d: "lookup2 ?st ''GENERAL'' ''default_thumbsize'' = Some (VTuple 64 64)"
    by (simp add: lookup2_def)
  have e: "has_kind env_example (kind_of ''default_thumbsize'') (VTuple 128 128)"
    by (simp add: kind_of_def)
  have p12: "py_int ''12'' = Some 12"
    by (simp add: py_int_def int_strip_def lstrip_def rstrip_def is_int_space_def
        int_unsigned_def digit_of_def)
  from setting_roundtrip[OF a b c d e]
  have "overwrite_section env_example ''GENERAL'' ?cfg ?st =
      overwrite_loop env_example ''GENERAL'' [(''thumb_padding'', ''12'')]
        (dict_set [(''GENERAL'', ?known1)] ''GENERAL''
           (dict_set ?known1 ''default_thumbsize'' (VTuple 128 128)), '''')"
    by blast
  then show ?thesis
    by (simp add: overwrite_setting_def parse_setting_def dict_set_def p12)
qed

lemma defaults_have_kind:
  assumes "isdir env (expanduser env ''~'')" "\<not> startswith ''~'' (expanduser env ''~'')"
    and "CHR ''%'' \<notin> set (expanduser env ''~'')"
    and "sect = ''GENERAL'' \<or> sect = ''LIBRARY''"
    and "lookup2 (set_defaults env) sect setting = Some v"
  shows "has_kind env (kind_of setting) v"
  using assms(4)
proof
  assume "sect = ''GENERAL''"
  with assms(5) show ?thesis
    by (auto simp: lookup2_def set_defaults_def kind_of_def split: if_splits)
next
  assume "sect = ''LIBRARY''"
  with assms(1,2,3,5) show ?thesis
    by (auto simp: lookup2_def set_defaults_def kind_of_def startswith_def endswith_def
        split: if_splits)
qed

section \<open>Properties of \<^verbatim>\<open>parse_keys\<close>\<close>

lemma interpolate_some_plain:
  "CHR ''%'' \<notin> set v \<Longrightarrow> depth \<le> 10 \<Longrightarrow> interpolate_some m depth v = Inr v"
proof (induction v)
  case Nil
  then show ?case by (simp add: interpolate_some.simps[of m depth "[]"])
next
  case (Cons c cs)
  then show ?case by (auto simp: interpolate_some.simps[of m depth "c # cs"])
qed

lemma section_get_plain:
  "map_of sect k = Some raw \<Longrightarrow> CHR ''%'' \<notin> set raw \<Longrightarrow> section_get sect k = Inr raw"
  by (simp add: section_get_def interpolate_some_plain)

lemma set_remove_escaped: "set (remove_escaped v) \<subseteq> set v"
  by (induction v rule: remove_escaped.induct) auto

lemma set_after_reference: "set (after_reference r) \<subseteq> set r"
proof -
  have "set (drop 2 (dropWhile (\<lambda>x. x \<noteq> CHR '')'') r)) \<subseteq> set (dropWhile (\<lambda>x. x \<noteq> CHR '')'') r)"
    by (rule set_drop_subset)
  also have "\<dots> \<subseteq> set r" by (auto dest: set_dropWhileD)
  finally show ?thesis by (simp add: after_reference_def after_name_def)
qed

lemma set_remove_references: "set (remove_references v) \<subseteq> set v"
proof (induction v rule: remove_references.induct)
  case 1
  then show ?case by simp
next
  case (2 c cs)
  show ?case
  proof (cases "c = CHR ''%'' \<and> startswith ''('' cs \<and> is_reference (tl cs)")
    case True
    with 2(1) have "set (remove_references (after_reference (tl cs))) \<subseteq> set (after_reference (tl cs))"
      by simp
    also have "\<dots> \<subseteq> set (tl cs)" by (rule set_after_reference)
    also have "\<dots> \<subseteq> set cs" by (cases cs) auto
    finally show ?thesis using True by auto
  next
    case False
    with 2(2) show ?thesis by auto
  qed
qed

lemma before_set_plain: "CHR ''%'' \<notin> set v \<Longrightarrow> before_set v = Inr v"
  using set_remove_references[of "remove_escaped v"] set_remove_escaped[of v]
  by (auto simp: before_set_def)

lemma section_set_plain:
  "CHR ''%'' \<notin> set v \<Longrightarrow> section_set sect k v = Inr (dict_set sect k v)"
  by (simp add: section_set_def before_set_plain)

lemma read_option_absent: "map_of sect k = None \<Longrightarrow> read_option sect k = None"
  by (simp add: read_option_def section_get_def)

lemma section_update_lookup:
  assumes "section_update d other ks = Inr d'"
  shows "map_of d' k = (if k \<in> set ks then read_option other k else map_of d k)
         \<and> (k \<in> set ks \<longrightarrow> read_option other k \<noteq> None)"
  using assms
proof (induction ks arbitrary: d)
  case Nil
  then show ?case by simp
next
  case (Cons k0 ks)
  from Cons.prems obtain v d1 where
    g: "section_get other k0 = Inr v" and
    s: "section_set d k0 v = Inr d1" and
    r: "section_update d1 other ks = Inr d'"
    by (auto split: sum.splits)
  from s have d1: "d1 = dict_set d k0 v"
    by (auto simp: section_set_def split: sum.splits simp: before_set_def split: if_splits)
  from g have rd: "read_option other k0 = Some v" by (simp add: read_option_def)
  from Cons.IH[OF r] show ?case
    by (auto simp: d1 rd dict_set_def update_conv')
qed

lemma section_update_all:
  assumes "section_update d other (map fst other) = Inr d'"
  shows "map_of d' k = (case read_option other k of Some c \<Rightarrow> Some c | None \<Rightarrow> map_of d k)"
proof (cases "k \<in> set (map fst other)")
  case True
  with section_update_lookup[OF assms, of k] show ?thesis by auto
next
  case False
  then have "map_of other k = None" by (simp add: map_of_eq_None_iff)
  then have "read_option other k = None" by (rule read_option_absent)
  with section_update_lookup[OF assms, of k] False show ?thesis by simp
qed

lemma update_keybindings_lookup:
  assumes "update_keybindings keys ss acc = Inr acc'"
  shows "map_of (fst acc') k =
     (case shared_binding keys ss k of Some c \<Rightarrow> Some c | None \<Rightarrow> map_of (fst acc) k)"
  using assms
proof (induction ss arbitrary: acc)
  case Nil
  then show ?case by simp
next
  case (Cons s ss)
  show ?case
  proof (cases "map_of keys s")
    case None
    with Cons.prems have "update_keybindings keys ss acc = Inr acc'" by simp
    from Cons.IH[OF this] None show ?thesis by (simp split: option.splits)
  next
    case (Some shared)
    with Cons.prems obtain keydict where
      u: "section_update (fst acc) shared (map fst shared) = Inr keydict" and
      r: "update_keybindings keys ss (keydict, snd acc @ [deprecation_notice s]) = Inr acc'"
      by (auto split: sum.splits)
    from Cons.IH[OF r] section_update_all[OF u, of k] Some show ?thesis
      by (simp split: option.splits)
  qed
qed

declare update_keybindings.simps [simp del]

lemma first_missing_cases:
  "first_missing keys =
     (if map_of keys ''IMAGE'' = None then Some ''IMAGE''
      else if map_of keys ''THUMBNAIL'' = None then Some ''THUMBNAIL''
      else if map_of keys ''LIBRARY'' = None then Some ''LIBRARY''
      else if map_of keys ''MANIPULATE'' = None then Some ''MANIPULATE''
      else if map_of keys ''COMMAND'' = None then Some ''COMMAND''
      else None)"
  by (simp add: first_missing_def required_sections_def)

lemma parse_keys_missing:
  assumes "read_files \<noteq> []" "first_missing keys = Some s"
  shows "parse_keys (Read_ok read_files keys) = Exit 1 (missing_section_message s)"
  using assms unfolding first_missing_cases parse_keys_def
  by (simp split: if_splits option.splits)

lemma parse_keys_no_file: "parse_keys (Read_ok [] keys) = Exit 1 ''Keyfile not found. Exiting.''"
  by (simp add: parse_keys_def)

lemma parse_keys_complete:
  assumes "read_files \<noteq> []" "first_missing keys = None"
  shows "\<exists>ki kt kl km kc.
    map_of keys ''IMAGE'' = Some ki \<and> map_of keys ''THUMBNAIL'' = Some kt \<and>
    map_of keys ''LIBRARY'' = Some kl \<and> map_of keys ''MANIPULATE'' = Some km \<and>
    map_of keys ''COMMAND'' = Some kc \<and>
    parse_keys (Read_ok read_files keys) = merge_shared keys ki kt kl km kc"
proof -
  from assms(2) obtain ki kt kl km kc where
    secs: "map_of keys ''IMAGE'' = Some ki" "map_of keys ''THUMBNAIL'' = Some kt"
      "map_of keys ''LIBRARY'' = Some kl" "map_of keys ''MANIPULATE'' = Some km"
      "map_of keys ''COMMAND'' = Some kc"
    unfolding first_missing_cases by (auto split: if_splits)
  have "parse_keys (Read_ok read_files keys) = merge_shared keys ki kt kl km kc"
    by (simp add: parse_keys_def assms(1) secs)
  with secs show ?thesis by blast
qed

lemma merge_shared_no_exit: "merge_shared keys ki kt kl km kc \<noteq> Exit n msg"
  by (simp add: merge_shared_def split: sum.splits)

lemma parse_keys_complete_no_exit:
  assumes "read_files \<noteq> []" "first_missing keys = None"
  shows "parse_keys (Read_ok read_files keys) \<noteq> Exit n msg"
proof -
  from parse_keys_complete[OF assms] obtain ki kt kl km kc where
    "parse_keys (Read_ok read_files keys) = merge_shared keys ki kt kl km kc"
    by blast
  then show ?thesis by (simp add: merge_shared_no_exit)
qed

lemma required_sections_cases:
  assumes "mode \<in> set required_sections"
  shows "mode = ''IMAGE'' \<or> mode = ''THUMBNAIL'' \<or> mode = ''LIBRARY'' \<or>
         mode = ''MANIPULATE'' \<or> mode = ''COMMAND''"
  using assms by (simp add: required_sections_def)

lemma parse_keys_mode:
  assumes "parse_keys (Read_ok read_files keys) = Returned (keybindings, printed)"
    and "mode \<in> set required_sections"
  shows "\<exists>sect out0 acc'. map_of keys mode = Some sect \<and>
     update_keybindings keys (shared_sections mode) (sect, out0) = Inr acc' \<and>
     map_of keybindings mode = Some (fst acc')"
proof -
  have ne: "read_files \<noteq> []" using assms(1) by (auto simp: parse_keys_no_file)
  have fm: "first_missing keys = None"
  proof (cases "first_missing keys")
    case (Some s)
    from parse_keys_missing[OF ne Some] assms(1) show ?thesis by simp
  qed simp
  from parse_keys_complete[OF ne fm] obtain ki kt kl km kc where
    secs: "map_of keys ''IMAGE'' = Some ki" "map_of keys ''THUMBNAIL'' = Some kt"
      "map_of keys ''LIBRARY'' = Some kl" "map_of keys ''MANIPULATE'' = Some km"
      "map_of keys ''COMMAND'' = Some kc" and
    p: "parse_keys (Read_ok read_files keys) = merge_shared keys ki kt kl km kc"
    by blast
  from assms(1) p have "merge_shared keys ki kt kl km kc = Returned (keybindings, printed)"
    by simp
  then obtain i t l where
    ui: "update_keybindings keys [''GENERAL'', ''IM_THUMB'', ''IM_LIB''] (ki, []) = Inr i" and
    ut: "update_keybindings keys [''GENERAL'', ''IM_THUMB''] (kt, snd i) = Inr t" and
    ul: "update_keybindings keys [''GENERAL'', ''IM_LIB''] (kl, snd t) = Inr l" and
    kb: "keybindings = [(''IMAGE'', fst i), (''THUMBNAIL'', fst t), (''LIBRARY'', fst l),
               (''MANIPULATE'', km), (''COMMAND'', kc)]"
    by (auto simp: merge_shared_def split: sum.splits)
  from required_sections_cases[OF assms(2)] show ?thesis
  proof (elim disjE)
    assume m: "mode = ''IMAGE''"
    show ?thesis unfolding m kb
      by (rule exI[of _ ki], rule exI[of _ "[]"], rule exI[of _ i])
        (simp add: secs shared_sections_def ui)
  next
    assume m: "mode = ''THUMBNAIL''"
    show ?thesis unfolding m kb
      by (rule exI[of _ kt], rule exI[of _ "snd i"], rule exI[of _ t])
        (simp add: secs shared_sections_def ut)
  next
    assume m: "mode = ''LIBRARY''"
    show ?thesis unfolding m kb
      by (rule exI[of _ kl], rule exI[of _ "snd t"], rule exI[of _ l])
        (simp add: secs shared_sections_def ul)
  next
    assume m: "mode = ''MANIPULATE''"
    show ?thesis unfolding m kb
      by (rule exI[of _ km], rule exI[of _ "[]"], rule exI[of _ "(km, [])"])
        (simp add: secs shared_sections_def update_keybindings.simps)
  next
    assume m: "mode = ''COMMAND''"
    show ?thesis unfolding m kb
      by (rule exI[of _ kc], rule exI[of _ "[]"], rule exI[of _ "(kc, [])"])
        (simp add: secs shared_sections_def update_keybindings.simps)
  qed
qed

text \<open>
  Claim C1, amended. When \<^verbatim>\<open>parse_keys\<close> returns, then for every mode and every key that an
  applicable deprecated shared section defines, the mode's mapping stores for the key the
  command read from the last applicable shared section that defines it (in the order
  \<^verbatim>\<open>GENERAL\<close>, \<^verbatim>\<open>IM_THUMB\<close>, \<^verbatim>\<open>IM_LIB\<close>), whether or not the mode's own section defines the
  key: shared entries are favoured over per-mode entries. When that command has no \<^verbatim>\<open>%\<close>,
  it is also what reading the key from the returned mapping gives. A key that no
  applicable shared section defines keeps what the mode's own section stores for it.
\<close>

theorem shared_sections_override:
  assumes "parse_keys (Read_ok read_files keys) = Returned (keybindings, printed)"
    and "mode \<in> set required_sections"
  shows "lookup2 keybindings mode k =
           (case shared_binding keys (shared_sections mode) k of
              Some c \<Rightarrow> Some c
            | None \<Rightarrow> lookup2 keys mode k)
         \<and> (\<forall>c. shared_binding keys (shared_sections mode) k = Some c \<and> CHR ''%'' \<notin> set c \<longrightarrow>
               read_binding keybindings mode k = Inr c)"
proof -
  from parse_keys_mode[OF assms] obtain sect out0 acc' where
    a: "map_of keys mode = Some sect" and
    u: "update_keybindings keys (shared_sections mode) (sect, out0) = Inr acc'" and
    b: "map_of keybindings mode = Some (fst acc')"
    by blast
  have stored: "lookup2 keybindings mode k =
           (case shared_binding keys (shared_sections mode) k of
              Some c \<Rightarrow> Some c
            | None \<Rightarrow> lookup2 keys mode k)"
    using update_keybindings_lookup[OF u, of k]
    by (simp add: lookup2_def a b split: option.splits)
  have "read_binding keybindings mode k = Inr c"
    if "shared_binding keys (shared_sections mode) k = Some c" "CHR ''%'' \<notin> set c" for c
  proof -
    from stored that(1) b have "map_of (fst acc') k = Some c" by (simp add: lookup2_def)
    from section_get_plain[OF this that(2)] show ?thesis by (simp add: read_binding_def b)
  qed
  with stored show ?thesis by blast
qed

text \<open>
  Claim C3. \<^verbatim>\<open>parse_keys\<close> ends the process exactly when no keys file could be read, when the
  keys file has a duplicate option, or when one of the five required sections is missing;
  the exit status is then 1, and when a section is missing the message names the first
  missing one. Any other exception of \<^verbatim>\<open>keys.read\<close> is not caught: it leaves \<^verbatim>\<open>parse_keys\<close>
  as an exception, without a call of \<^verbatim>\<open>sys.exit\<close>.
\<close>

theorem parse_keys_exits:
  "((\<exists>n msg. parse_keys r = Exit n msg) \<longleftrightarrow> no_keyfile r \<or> duplicate_option r \<or> section_missing r)
   \<and> (\<forall>n msg. parse_keys r = Exit n msg \<longrightarrow> n = 1)
   \<and> (\<forall>read_files keys s.
         r = Read_ok read_files keys \<and> read_files \<noteq> [] \<and> first_missing keys = Some s \<longrightarrow>
         parse_keys r = Exit 1 (''Missing section '' @ quote @ s @ quote @ '' in keys.conf.''
            @ newline @ ''Refer to vimivrc(5) to fix your config.''))
   \<and> (\<forall>e. r = Read_raises e \<longrightarrow> parse_keys r = Raised e)"
proof (cases r)
  case (Read_ok read_files keys)
  show ?thesis
  proof (cases "read_files = []")
    case True
    then show ?thesis unfolding Read_ok
      by (simp add: parse_keys_no_file no_keyfile_def)
  next
    case False
    show ?thesis
    proof (cases "first_missing keys")
      case None
      from parse_keys_complete_no_exit[OF False None]
      have "\<And>n msg. parse_keys (Read_ok read_files keys) \<noteq> Exit n msg" .
      then show ?thesis unfolding Read_ok using False None
        by (simp add: no_keyfile_def duplicate_option_def section_missing_def)
    next
      case (Some s)
      from parse_keys_missing[OF False Some] show ?thesis unfolding Read_ok using False Some
        by (simp add: no_keyfile_def duplicate_option_def section_missing_def
            missing_section_message_def)
    qed
  qed
next
  case (Duplicate_option m)
  then show ?thesis
    by (simp add: parse_keys_def no_keyfile_def duplicate_option_def section_missing_def)
next
  case (Read_raises e)
  then show ?thesis
    by (simp add: parse_keys_def no_keyfile_def duplicate_option_def section_missing_def)
qed


text \<open>
  Two keys files with \<^verbatim>\<open>%\<close> in a shared command. A command that reads \<^verbatim>\<open>zoom 50%\<close> cannot be
  written to the mode's section: \<^verbatim>\<open>parse_keys\<close> raises \<^verbatim>\<open>ValueError\<close>. A command that reads
  \<^verbatim>\<open>100%%\<close> is written, and reads \<^verbatim>\<open>100%\<close> from the returned mapping.
\<close>

lemma parse_keys_lone_percent:
  "parse_keys (Read_ok [''/etc/vimiv/keys.conf''] keys_percent) = Raised ValueError"
  by code_simp

lemma parse_keys_escaped_percent:
  "parse_keys (Read_ok [''/etc/vimiv/keys.conf''] keys_escaped) =
     Returned
       ([(''IMAGE'', [(''a'', ''100%%'')]),
         (''THUMBNAIL'', [(''a'', ''100%%'')]),
         (''LIBRARY'', [(''a'', ''100%%'')]),
         (''MANIPULATE'', []),
         (''COMMAND'', [])],
        [deprecation_notice ''GENERAL'', deprecation_notice ''GENERAL'',
         deprecation_notice ''GENERAL''])
   \<and> read_binding [(''IMAGE'', [(''a'', ''100%%'')])] ''IMAGE'' ''a'' = Inr ''100%''"
  by code_simp

theorem parse_keys_exits_witness:
  "section_missing (Read_ok [''/etc/vimiv/keys.conf''] keys_incomplete)
   \<and> parse_keys (Read_ok [''/etc/vimiv/keys.conf''] keys_incomplete) =
       Exit 1 (''Missing section '' @ quote @ ''MANIPULATE'' @ quote @ '' in keys.conf.''
            @ newline @ ''Refer to vimivrc(5) to fix your config.'')
   \<and> no_keyfile (Read_ok [] keys_incomplete)
   \<and> (\<exists>n msg. parse_keys (Read_ok [] keys_incomplete) = Exit n msg)"
proof -
  have fm: "first_missing keys_incomplete = Some ''MANIPULATE''"
    by (simp add: first_missing_def required_sections_def keys_incomplete_def)
  have sm: "section_missing (Read_ok [''/etc/vimiv/keys.conf''] keys_incomplete)"
    by (simp add: section_missing_def fm)
  have nk: "no_keyfile (Read_ok [] keys_incomplete)"
    by (simp add: no_keyfile_def)
  have ne: "[''/etc/vimiv/keys.conf''] \<noteq> []" by simp
  note t1 = parse_keys_exits[of "Read_ok [''/etc/vimiv/keys.conf''] keys_incomplete"]
  note t2 = parse_keys_exits[of "Read_ok [] keys_incomplete"]
  from t1 have "\<forall>read_files keys s.
         Read_ok [''/etc/vimiv/keys.conf''] keys_incomplete = Read_ok read_files keys
           \<and> read_files \<noteq> [] \<and> first_missing keys = Some s \<longrightarrow>
         parse_keys (Read_ok [''/etc/vimiv/keys.conf''] keys_incomplete) =
           Exit 1 (''Missing section '' @ quote @ s @ quote @ '' in keys.conf.''
            @ newline @ ''Refer to vimivrc(5) to fix your config.'')"
    by (rule conjunct2[THEN conjunct2, THEN conjunct1])
  then have ex: "parse_keys (Read_ok [''/etc/vimiv/keys.conf''] keys_incomplete) =
       Exit 1 (''Missing section '' @ quote @ ''MANIPULATE'' @ quote @ '' in keys.conf.''
            @ newline @ ''Refer to vimivrc(5) to fix your config.'')"
    using ne fm by blast
  from t2 have "(\<exists>n msg. parse_keys (Read_ok [] keys_incomplete) = Exit n msg) \<longleftrightarrow>
      no_keyfile (Read_ok [] keys_incomplete) \<or> duplicate_option (Read_ok [] keys_incomplete)
        \<or> section_missing (Read_ok [] keys_incomplete)"
    by (rule conjunct1)
  with nk have "\<exists>n msg. parse_keys (Read_ok [] keys_incomplete) = Exit n msg" by blast
  with sm ex nk show ?thesis by blast
qed

lemma parse_keys_example:
  "parse_keys (Read_ok [''/etc/vimiv/keys.conf''] keys_example) =
     Returned
       ([(''IMAGE'', [(''a'', ''prev''), (''b'', ''zoom_in'')]),
         (''THUMBNAIL'', [(''a'', ''prev'')]),
         (''LIBRARY'', [(''a'', ''prev'')]),
         (''MANIPULATE'', []),
         (''COMMAND'', [])],
        [deprecation_notice ''GENERAL'', deprecation_notice ''GENERAL'',
         deprecation_notice ''GENERAL''])"
  by (simp add: parse_keys_def merge_shared_def keys_example_def update_keybindings.simps
      section_get_plain section_set_plain dict_set_def)

text \<open>
  Claim C1, as stated, fails. The keys file \<open>keys_example\<close> binds \<^verbatim>\<open>a\<close> to \<^verbatim>\<open>next\<close> in its
  \<^verbatim>\<open>IMAGE\<close> section and to \<^verbatim>\<open>prev\<close> in the shared \<^verbatim>\<open>GENERAL\<close> section; in the mapping that
  \<^verbatim>\<open>parse_keys\<close> returns for \<^verbatim>\<open>IMAGE\<close>, \<^verbatim>\<open>a\<close> reads \<^verbatim>\<open>prev\<close>.
\<close>

theorem shared_entry_overrides_mode_entry:
  "parse_keys (Read_ok [''/etc/vimiv/keys.conf''] keys_example) =
     Returned
       ([(''IMAGE'', [(''a'', ''prev''), (''b'', ''zoom_in'')]),
         (''THUMBNAIL'', [(''a'', ''prev'')]),
         (''LIBRARY'', [(''a'', ''prev'')]),
         (''MANIPULATE'', []),
         (''COMMAND'', [])],
        [deprecation_notice ''GENERAL'', deprecation_notice ''GENERAL'',
         deprecation_notice ''GENERAL''])
   \<and> read_binding keys_example ''IMAGE'' ''a'' = Inr ''next''
   \<and> read_binding keys_example ''GENERAL'' ''a'' = Inr ''prev''
   \<and> read_binding [(''IMAGE'', [(''a'', ''prev''), (''b'', ''zoom_in'')]),
         (''THUMBNAIL'', [(''a'', ''prev'')]),
         (''LIBRARY'', [(''a'', ''prev'')]),
         (''MANIPULATE'', []),
         (''COMMAND'', [])] ''IMAGE'' ''a'' = Inr ''prev''
   \<and> ''prev'' \<noteq> ''next''"
  by (simp add: parse_keys_example)
    (simp add: read_binding_def keys_example_def section_get_plain)

theorem shared_sections_override_witness:
  "read_binding [(''IMAGE'', [(''a'', ''prev''), (''b'', ''zoom_in'')]),
         (''THUMBNAIL'', [(''a'', ''prev'')]),
         (''LIBRARY'', [(''a'', ''prev'')]),
         (''MANIPULATE'', []),
         (''COMMAND'', [])] ''IMAGE'' ''a'' = Inr ''prev''
   \<and> lookup2 [(''IMAGE'', [(''a'', ''prev''), (''b'', ''zoom_in'')]),
         (''THUMBNAIL'', [(''a'', ''prev'')]),
         (''LIBRARY'', [(''a'', ''prev'')]),
         (''MANIPULATE'', []),
         (''COMMAND'', [])] ''IMAGE'' ''b'' = Some ''zoom_in''"
proof -
  have m: "''IMAGE'' \<in> set required_sections"
    by (simp add: required_sections_def)
  have sa: "shared_binding keys_example (shared_sections ''IMAGE'') ''a'' = Some ''prev''"
    by (simp add: shared_sections_def keys_example_def read_option_def section_get_def
        interpolate_some_plain)
  have sb: "shared_binding keys_example (shared_sections ''IMAGE'') ''b'' = None"
    by (simp add: shared_sections_def keys_example_def read_option_def section_get_def)
  have lb: "lookup2 keys_example ''IMAGE'' ''b'' = Some ''zoom_in''"
    by (simp add: lookup2_def keys_example_def)
  have pf: "CHR ''%'' \<notin> set ''prev''" by simp
  note a = shared_sections_override[OF parse_keys_example m, of "''a''"]
  note b = shared_sections_override[OF parse_keys_example m, of "''b''"]
  from a sa pf have "read_binding [(''IMAGE'', [(''a'', ''prev''), (''b'', ''zoom_in'')]),
         (''THUMBNAIL'', [(''a'', ''prev'')]),
         (''LIBRARY'', [(''a'', ''prev'')]),
         (''MANIPULATE'', []),
         (''COMMAND'', [])] ''IMAGE'' ''a'' = Inr ''prev''"
    by blast
  moreover from b have "lookup2 [(''IMAGE'', [(''a'', ''prev''), (''b'', ''zoom_in'')]),
         (''THUMBNAIL'', [(''a'', ''prev'')]),
         (''LIBRARY'', [(''a'', ''prev'')]),
         (''MANIPULATE'', []),
         (''COMMAND'', [])] ''IMAGE'' ''b'' = Some ''zoom_in''"
    by (simp only: sb lb option.case)
  ultimately show ?thesis by blast
qed


section \<open>Properties of the library pane\<close>

lemma py_int_nil: "py_int [] = None"
  by (simp add: py_int_def int_strip_def lstrip_def rstrip_def)

text \<open>
  Claim C9. On a listing that is not empty, \<^verbatim>\<open>move_pos\<close> with an explicit position \<open>p\<close>
  calls \<^verbatim>\<open>set_cursor\<close> with exactly \<open>p\<close>, whatever \<open>p\<close> is: there is no clamping and no range
  check, so a negative position or one past the end of the listing is passed on as it is.
  The pending numeric prefix is cleared, and nothing else changes.
\<close>

theorem move_pos_defined:
  assumes "files s \<noteq> []"
  shows "move_pos forward (Some p) s =
           Inr (s\<lparr>set_cursor_calls := set_cursor_calls s @ [p], num_str := ''''\<rparr>)"
  using assms by (simp add: move_pos_def num_clear_def set_cursor_def)

theorem move_pos_defined_witness:
  "move_pos True (Some (- 1)) lib_example =
     Inr (lib_example\<lparr>set_cursor_calls := [- 1], num_str := ''''\<rparr>)
   \<and> move_pos False (Some 7) lib_example =
     Inr (lib_example\<lparr>set_cursor_calls := [7], num_str := ''''\<rparr>)
   \<and> length (files lib_example) = 5"
proof -
  have ne: "files lib_example \<noteq> []" by (simp add: lib_example_def)
  have sc: "set_cursor_calls lib_example = []" by (simp add: lib_example_def)
  from move_pos_defined[OF ne, of True "- 1"] move_pos_defined[OF ne, of False 7]
  show ?thesis by (simp add: sc) (simp add: lib_example_def)
qed

text \<open>
  Claim C7. \<^verbatim>\<open>move_pos\<close> without an explicit position, on a listing of \<open>n > 0\<close> entries:
  with a pending prefix that reads as the number \<open>k\<close>, the cursor goes to row \<open>k - 1\<close> when
  \<open>1 \<le> k \<le> n\<close>, and otherwise a warning is reported and the cursor is not moved; either
  way the prefix is cleared. With no prefix the cursor goes to row \<open>n - 1\<close> when \<open>forward\<close>
  holds and to row 0 when it does not. On an empty listing a warning is reported and
  nothing else happens.
\<close>

theorem move_pos_prefix:
  "(files s \<noteq> [] \<and> py_int (num_str s) = Some n \<and> 1 \<le> n \<and> n \<le> int (length (files s)) \<longrightarrow>
      move_pos forward None s =
        Inr (s\<lparr>set_cursor_calls := set_cursor_calls s @ [n - 1], num_str := ''''\<rparr>))
   \<and> (files s \<noteq> [] \<and> py_int (num_str s) = Some n \<and> (n < 1 \<or> int (length (files s)) < n) \<longrightarrow>
      move_pos forward None s =
        Inr (s\<lparr>err_messages := err_messages s @ [''Warning: Unsupported index''],
               num_str := ''''\<rparr>))
   \<and> (files s \<noteq> [] \<and> num_str s = [] \<longrightarrow>
      move_pos True None s =
        Inr (s\<lparr>set_cursor_calls := set_cursor_calls s @ [int (length (files s)) - 1],
               num_str := ''''\<rparr>)
      \<and> move_pos False None s =
        Inr (s\<lparr>set_cursor_calls := set_cursor_calls s @ [0], num_str := ''''\<rparr>))
   \<and> (files s = [] \<longrightarrow>
      move_pos forward defined_pos s =
        Inr (s\<lparr>err_messages := err_messages s @ [''Warning: Directory is empty'']\<rparr>))"
  by (auto simp: move_pos_def num_clear_def set_cursor_def err_message_def Let_def py_int_nil)

theorem move_pos_prefix_witness:
  "move_pos True None lib_example =
     Inr (lib_example\<lparr>set_cursor_calls := [2], num_str := ''''\<rparr>)
   \<and> move_pos True None (lib_example\<lparr>num_str := ''99''\<rparr>) =
     Inr (lib_example\<lparr>err_messages := [''Warning: Unsupported index''], num_str := ''''\<rparr>)
   \<and> move_pos True None (lib_example\<lparr>num_str := ''''\<rparr>) =
     Inr (lib_example\<lparr>set_cursor_calls := [4], num_str := ''''\<rparr>)
   \<and> move_pos False None (lib_example\<lparr>num_str := ''''\<rparr>) =
     Inr (lib_example\<lparr>set_cursor_calls := [0], num_str := ''''\<rparr>)
   \<and> move_pos True None (lib_example\<lparr>files := []\<rparr>) =
     Inr (lib_example\<lparr>files := [], err_messages := [''Warning: Directory is empty'']\<rparr>)"
proof -
  have p3: "py_int ''3'' = Some 3"
    by (simp add: py_int_def int_strip_def lstrip_def rstrip_def is_int_space_def int_unsigned_def
        digit_of_def)
  have p99: "py_int ''99'' = Some 99"
    by (simp add: py_int_def int_strip_def lstrip_def rstrip_def is_int_space_def int_unsigned_def
        digit_of_def)
  note a = move_pos_prefix[of lib_example 3 True None]
  note b = move_pos_prefix[of "lib_example\<lparr>num_str := ''99''\<rparr>" 99 True None]
  note c = move_pos_prefix[of "lib_example\<lparr>num_str := ''''\<rparr>" 0 True None]
  note d = move_pos_prefix[of "lib_example\<lparr>files := []\<rparr>" 0 True None]
  from a have "move_pos True None lib_example =
     Inr (lib_example\<lparr>set_cursor_calls := [2], num_str := ''''\<rparr>)"
    by (simp add: lib_example_def p3)
  moreover from b have "move_pos True None (lib_example\<lparr>num_str := ''99''\<rparr>) =
     Inr (lib_example\<lparr>err_messages := [''Warning: Unsupported index''], num_str := ''''\<rparr>)"
    by (simp add: lib_example_def p99)
  moreover from c have "move_pos True None (lib_example\<lparr>num_str := ''''\<rparr>) =
     Inr (lib_example\<lparr>set_cursor_calls := [4], num_str := ''''\<rparr>)
   \<and> move_pos False None (lib_example\<lparr>num_str := ''''\<rparr>) =
     Inr (lib_example\<lparr>set_cursor_calls := [0], num_str := ''''\<rparr>)"
    by (simp add: lib_example_def)
  moreover from d have "move_pos True None (lib_example\<lparr>files := []\<rparr>) =
     Inr (lib_example\<lparr>files := [], err_messages := [''Warning: Directory is empty'']\<rparr>)"
    by (simp add: lib_example_def)
  ultimately show ?thesis by simp
qed

lemma index_of_nth: "x \<in> set xs \<Longrightarrow> index_of x xs < length xs \<and> xs ! index_of x xs = x"
  by (induction xs) auto

lemma reloaded_visible:
  "grid_visible s \<Longrightarrow>
   reloaded toggle listing search s =
     (if search then s\<lparr>files := listing\<rparr> else s\<lparr>search_positions := [], files := listing\<rparr>)"
  by (simp add: reloaded_def focus_def)

text \<open>
  Claim C6, amended. Let \<open>s3\<close> be the pane when \<^verbatim>\<open>reload\<close> reaches its test of \<^verbatim>\<open>dir_pos\<close>. If
  a position is remembered for \<open>directory\<close> and the new listing is not empty, the cursor is
  moved to that position; if a position is remembered and the listing is empty, a warning
  is reported and the cursor is not moved. If no position is remembered and the basename
  of \<open>last_directory\<close> is in the new listing, the cursor is moved to the index of that
  entry. Otherwise nothing is done.
\<close>

theorem reload_cursor:
  assumes "s3 = reloaded toggle listing search s"
  shows
  "(map_of (dir_pos s3) directory = Some pos \<and> files s3 \<noteq> [] \<longrightarrow>
      reload toggle listing directory last_directory search s =
        Inr (s3\<lparr>set_cursor_calls := set_cursor_calls s3 @ [pos], num_str := ''''\<rparr>))
   \<and> (map_of (dir_pos s3) directory = Some pos \<and> files s3 = [] \<longrightarrow>
      reload toggle listing directory last_directory search s =
        Inr (s3\<lparr>err_messages := err_messages s3 @ [''Warning: Directory is empty'']\<rparr>))
   \<and> (map_of (dir_pos s3) directory = None \<and> basename last_directory \<in> set (files s3) \<longrightarrow>
      reload toggle listing directory last_directory search s =
        Inr (s3\<lparr>set_cursor_calls :=
                   set_cursor_calls s3 @ [int (index_of (basename last_directory) (files s3))],
                 num_str := ''''\<rparr>)
      \<and> files s3 ! index_of (basename last_directory) (files s3) = basename last_directory)
   \<and> (map_of (dir_pos s3) directory = None \<and> basename last_directory \<notin> set (files s3) \<longrightarrow>
      reload toggle listing directory last_directory search s = Inr s3)"
proof -
  have ne: "basename last_directory \<in> set (files s3) \<Longrightarrow> files s3 \<noteq> []" by auto
  show ?thesis
    unfolding reload_def assms[symmetric] Let_def
    by (auto simp: move_pos_def num_clear_def set_cursor_def err_message_def Let_def
        index_of_nth dest: ne)
qed

text \<open>
  Claim C6, as stated, fails. A position is remembered for \<^verbatim>\<open>/a\<close>, the directory has become
  empty, and \<^verbatim>\<open>reload\<close> does not move the cursor: \<^verbatim>\<open>move_pos\<close> returns at its test for an
  empty listing, after a warning.
\<close>

theorem reload_remembered_empty_listing:
  "map_of (dir_pos (reloaded id [] False lib_example)) ''/a'' = Some 3
   \<and> reload id [] ''/a'' ''/a/b'' False lib_example =
       Inr (lib_example\<lparr>files := [], search_positions := [],
              err_messages := [''Warning: Directory is empty'']\<rparr>)
   \<and> set_cursor_calls
        (lib_example\<lparr>files := [], search_positions := [],
              err_messages := [''Warning: Directory is empty'']\<rparr>) = []"
  by (simp add: reload_def reloaded_def focus_def move_pos_def err_message_def lib_example_def)

theorem reload_cursor_witness:
  "reload id [''a.png'', ''c'', ''d.jpg'', ''e.png''] ''/a'' ''/a/b'' False lib_example =
     Inr (lib_example\<lparr>files := [''a.png'', ''c'', ''d.jpg'', ''e.png''], search_positions := [],
            set_cursor_calls := [3], num_str := ''''\<rparr>)
   \<and> reload id [] ''/a'' ''/a/b'' False lib_example =
     Inr (lib_example\<lparr>files := [], search_positions := [],
            err_messages := [''Warning: Directory is empty'']\<rparr>)
   \<and> reload id [''b'', ''c''] ''/a/b'' ''/a/b/c'' False lib_example =
     Inr (lib_example\<lparr>files := [''b'', ''c''], search_positions := [],
            set_cursor_calls := [1], num_str := ''''\<rparr>)
   \<and> reload id [''b'', ''d''] ''/a/b'' ''/a/b/c'' False lib_example =
     Inr (lib_example\<lparr>files := [''b'', ''d''], search_positions := []\<rparr>)"
proof -
  have v: "grid_visible lib_example" by (simp add: lib_example_def)
  have bn: "basename ''/a/b/c'' = ''c''" by (simp add: basename_def)
  have r: "\<And>l. reloaded id l False lib_example = lib_example\<lparr>search_positions := [], files := l\<rparr>"
    by (simp add: reloaded_visible[OF v])
  note a = reload_cursor[OF r[of "[''a.png'', ''c'', ''d.jpg'', ''e.png'']", symmetric],
      of "''/a''" 3 "''/a/b''"]
  note b = reload_cursor[OF r[of "[]", symmetric], of "''/a''" 3 "''/a/b''"]
  note c = reload_cursor[OF r[of "[''b'', ''c'']", symmetric], of "''/a/b''" 0 "''/a/b/c''"]
  note d = reload_cursor[OF r[of "[''b'', ''d'']", symmetric], of "''/a/b''" 0 "''/a/b/c''"]
  from a have "reload id [''a.png'', ''c'', ''d.jpg'', ''e.png''] ''/a'' ''/a/b'' False lib_example =
     Inr (lib_example\<lparr>files := [''a.png'', ''c'', ''d.jpg'', ''e.png''], search_positions := [],
            set_cursor_calls := [3], num_str := ''''\<rparr>)"
    by (simp add: lib_example_def)
  moreover from b have "reload id [] ''/a'' ''/a/b'' False lib_example =
     Inr (lib_example\<lparr>files := [], search_positions := [],
            err_messages := [''Warning: Directory is empty'']\<rparr>)"
    by (simp add: lib_example_def)
  moreover from c have "reload id [''b'', ''c''] ''/a/b'' ''/a/b/c'' False lib_example =
     Inr (lib_example\<lparr>files := [''b'', ''c''], search_positions := [],
            set_cursor_calls := [1], num_str := ''''\<rparr>)"
    by (simp add: lib_example_def bn)
  moreover from d have "reload id [''b'', ''d''] ''/a/b'' ''/a/b/c'' False lib_example =
     Inr (lib_example\<lparr>files := [''b'', ''d''], search_positions := []\<rparr>)"
    by (simp add: lib_example_def bn)
  ultimately show ?thesis by simp
qed

lemma width_apply_limits:
  "width (apply_limits s) =
     (if width s > winsize_width s - 200 then winsize_width s - 200
      else if width s < 100 then 100 else width s)"
  by (simp add: apply_limits_def Let_def)

text \<open>
  Claim C8, amended. When the window is at least 300 wide, every \<^verbatim>\<open>resize\<close> with numeric
  input leaves a width between 100 and \<open>window_width - 200\<close>. With input that is not
  numeric, an error is reported and the width, like the rest of the pane, is unchanged.
\<close>

theorem resize_limits:
  "(numeric_input val \<and> 300 \<le> winsize_width s \<longrightarrow>
      100 \<le> width (resize inc require_val val s)
      \<and> width (resize inc require_val val s) \<le> winsize_width s - 200)
   \<and> (\<not> numeric_input val \<longrightarrow>
      resize inc require_val val s = err_message ''Library width must be an integer'' s
      \<and> width (resize inc require_val val s) = width s)"
proof (cases "truthy val")
  case True
  then show ?thesis
    by (cases "int_of_arg val")
      (auto simp: numeric_input_def resize_def width_apply_limits err_message_def)
next
  case False
  then show ?thesis
    by (auto simp: numeric_input_def resize_def width_apply_limits)
qed

text \<open>
  Claim C8, as stated, fails. In a window 250 wide the interval from 100 to
  \<open>window_width - 200\<close> is empty; growing the pane by the default step gives the width 50.
\<close>

theorem resize_narrow_window:
  "numeric_input ANone
   \<and> width (resize True False ANone (lib_example\<lparr>winsize_width := 250\<rparr>)) = 50
   \<and> \<not> (100 \<le> width (resize True False ANone (lib_example\<lparr>winsize_width := 250\<rparr>))
        \<and> width (resize True False ANone (lib_example\<lparr>winsize_width := 250\<rparr>))
            \<le> winsize_width (lib_example\<lparr>winsize_width := 250\<rparr>) - 200)"
  by (simp add: numeric_input_def resize_def width_apply_limits lib_example_def)

theorem resize_limits_witness:
  "width (resize True False (AStr ''1000'') lib_example) = 600
   \<and> width (resize False False (AStr ''1000'') lib_example) = 100
   \<and> resize True True (AStr ''wide'') lib_example =
       lib_example\<lparr>err_messages := [''Library width must be an integer'']\<rparr>"
proof -
  have p: "py_int ''1000'' = Some 1000"
    by (simp add: py_int_def int_strip_def lstrip_def rstrip_def is_int_space_def int_unsigned_def
        digit_of_def)
  have q: "py_int ''wide'' = None"
    by (simp add: py_int_def int_strip_def lstrip_def rstrip_def is_int_space_def int_unsigned_def
        digit_of_def)
  have n: "numeric_input (AStr ''1000'')" by (simp add: numeric_input_def p)
  have m: "\<not> numeric_input (AStr ''wide'')" by (simp add: numeric_input_def q)
  have w: "300 \<le> winsize_width lib_example" by (simp add: lib_example_def)
  have up: "width (resize True False (AStr ''1000'') lib_example) = 600"
    by (simp add: resize_def p width_apply_limits lib_example_def)
  have down: "width (resize False False (AStr ''1000'') lib_example) = 100"
    by (simp add: resize_def p width_apply_limits lib_example_def)
  from resize_limits[of "AStr ''wide''" lib_example True True] m
  have "resize True True (AStr ''wide'') lib_example =
       err_message ''Library width must be an integer'' lib_example"
    by blast
  moreover from resize_limits[of "AStr ''1000''" lib_example True False] n w
  have "100 \<le> width (resize True False (AStr ''1000'') lib_example)" by blast
  ultimately show ?thesis using up down
    by (simp add: err_message_def lib_example_def)
qed

text \<open>
  Claim C10. A falsy \<^verbatim>\<open>val\<close> (\<^verbatim>\<open>None\<close>, \<^verbatim>\<open>0\<close>, the empty string) is replaced before it is
  used: with \<^verbatim>\<open>require_val\<close> the width is set to the default width, not to 0, and in
  grow and shrink mode the width changes by the default step 20, not by 0. The limits at
  the end of \<^verbatim>\<open>resize\<close> then apply as for any other value.
\<close>

theorem resize_falsy_default:
  assumes "\<not> truthy val"
  shows "resize inc True val s = apply_limits (s\<lparr>width := default_width s\<rparr>)
         \<and> resize inc True val s = resize inc True (AInt (default_width s)) s
         \<and> resize True False val s = apply_limits (s\<lparr>width := width s + 20\<rparr>)
         \<and> resize False False val s = apply_limits (s\<lparr>width := width s - 20\<rparr>)
         \<and> resize inc False val s = resize inc False (AInt 20) s"
  using assms by (simp add: resize_def)

theorem resize_falsy_default_witness:
  "width (resize True True (AInt 0) (lib_example\<lparr>width := 120\<rparr>)) = 300
   \<and> width (resize True True ANone (lib_example\<lparr>width := 120\<rparr>)) = 300
   \<and> width (resize True True (AStr '''') (lib_example\<lparr>width := 120\<rparr>)) = 300
   \<and> width (resize True False (AInt 0) (lib_example\<lparr>width := 120\<rparr>)) = 140
   \<and> width (resize False False ANone (lib_example\<lparr>width := 120\<rparr>)) = 100"
proof -
  have f: "\<not> truthy (AInt 0)" "\<not> truthy ANone" "\<not> truthy (AStr '''')" by simp_all
  from resize_falsy_default[OF f(1), of True "lib_example\<lparr>width := 120\<rparr>"]
    resize_falsy_default[OF f(2), of True "lib_example\<lparr>width := 120\<rparr>"]
    resize_falsy_default[OF f(3), of True "lib_example\<lparr>width := 120\<rparr>"]
  show ?thesis by (simp add: width_apply_limits lib_example_def)
qed
end
